theory Spec2Isabelle
  imports Complex_Main "HOL-Library.Multiset"
begin

section \<open>Life RPG: the rollover and scoring engine of app.js\<close>

text \<open>
  A shallow embedding of the scoring, streak, quest-assignment and rollover functions of
  \<^verbatim>\<open>src/app.js\<close> (lines 12, 16-39, 101-130, 178-376, 1537-1559).

  Conventions of the embedding.
  \<^item> JavaScript numbers that hold counts and points are \<open>int\<close>. The partial credit of
    a counter habit and the product with a quest multiplier are computed as the source
    computes them, in binary64 with each operation rounded (section Numbers). A value of
    \<^verbatim>\<open>Math.random()\<close> is a rational in the unit interval, and its product with a small
    integer is taken exactly.
  \<^item> \<^verbatim>\<open>x || d\<close> on a number is \<open>orElse x d\<close>: \<open>d\<close> when \<open>x\<close> is 0, else \<open>x\<close>.
  \<^item> A nullable timestamp (an ISO string or \<^verbatim>\<open>null\<close>) is an \<open>int option\<close>: the
    milliseconds \<^verbatim>\<open>new Date(s).getTime()\<close> gives, or \<open>None\<close>.
  \<^item> A \<^verbatim>\<open>'YYYY-MM-DD'\<close> day string is a \<open>dateStr\<close>; it is never the empty string, so a
    nullable day string is falsy exactly when it is \<open>None\<close>.
  \<^item> What the source asks of the JavaScript runtime is a field of \<open>Env\<close>: the
    \<^verbatim>\<open>Date\<close> computations on a day string, the sequence of values \<^verbatim>\<open>Math.random()\<close>
    returns, and the text of a fresh id.
  \<^item> A record has the fields the embedded functions read or write; titles, colours,
    creation times and the storage keys of logs and settings are left out.
  \<^item> The functions are \<^verbatim>\<open>async\<close> because they await the storage wrapper \<^verbatim>\<open>db\<close>.
    \<^verbatim>\<open>ensureRollover\<close> is embedded twice: as one call run from its first line to its
    return with nothing in between (\<open>ensureRollover\<close>), and as the steps between its
    storage requests, at which calls interleave (\<open>ensureRolloverStart\<close>, \<open>resume\<close>); the
    two agree on a call that runs alone. Every storage request is taken to succeed, and
    only the in-memory \<^verbatim>\<open>AppState\<close> is kept.
\<close>

subsection \<open>Values\<close>

datatype weekday = Sun | Mon | Tue | Wed | Thu | Fri | Sat

datatype dateStr = YMD nat nat nat

definition orElse :: "'a::zero \<Rightarrow> 'a \<Rightarrow> 'a" where
  "orElse x d = (if x = 0 then d else x)"

text \<open>\<^verbatim>\<open>const clamp = (n, min, max) => Math.max(min, Math.min(max, n));\<close>\<close>

definition clamp :: "int \<Rightarrow> int \<Rightarrow> int \<Rightarrow> int" where
  "clamp n lo hi = max lo (min hi n)"

subsection \<open>Numbers\<close>

text \<open>
  A JavaScript number is an IEEE 754 binary64 value. Counts and points are integers far
  below \<open>2^53\<close>, which binary64 holds exactly, and their sums are exact: they are \<open>int\<close>.
  A quotient or a product that need not be an integer is rounded to the nearest binary64
  value, ties to the even significand: \<open>toDouble x\<close>, for \<open>x\<close> in the normal range of
  binary64 (no overflow, no subnormal results), which is where counts, targets, points
  and multipliers lie. \<open>bitLength n\<close> is the number of binary digits of \<open>n\<close>, \<open>ilog2 x\<close>
  the integer part of the binary logarithm of a positive \<open>x\<close>.
\<close>

fun bitLength :: "nat \<Rightarrow> nat" where
  "bitLength n = (if n = 0 then 0 else Suc (bitLength (n div 2)))"

declare bitLength.simps [simp del]

definition pow2 :: "int \<Rightarrow> rat" where
  "pow2 e = (if 0 \<le> e then 2 ^ nat e else 1 / 2 ^ nat (- e))"

definition ilog2 :: "rat \<Rightarrow> int" where
  "ilog2 x = (if 1 \<le> x then int (bitLength (nat \<lfloor>x\<rfloor>)) - 1
              else (let t = int (bitLength (nat \<lfloor>1 / x\<rfloor>)) - 1
                    in if 1 / x = pow2 t then - t else - t - 1))"

definition roundHalfEven :: "rat \<Rightarrow> int" where
  "roundHalfEven x =
     (let f = \<lfloor>x\<rfloor>; d = x - of_int f
      in if d < 1 / 2 then f else if 1 / 2 < d then f + 1 else if even f then f else f + 1)"

definition toDouble :: "rat \<Rightarrow> rat" where
  "toDouble x =
     (if x = 0 then 0
      else (let a = \<bar>x\<bar>; e = ilog2 a - 52
            in sgn x * of_int (roundHalfEven (a / pow2 e)) * pow2 e))"

text \<open>The operators \<^verbatim>\<open>/\<close> and \<^verbatim>\<open>*\<close> on numbers.\<close>

definition numDiv :: "rat \<Rightarrow> rat \<Rightarrow> rat" where
  "numDiv x y = toDouble (x / y)"

definition numMul :: "rat \<Rightarrow> rat \<Rightarrow> rat" where
  "numMul x y = toDouble (x * y)"

subsection \<open>Records\<close>

text \<open>
  The fields \<open>weeklyFactor\<close> and \<open>aq_multiplier\<close> hold a number that need not be an
  integer. They are rationals, and the arithmetic that reads a multiplier takes the
  binary64 value nearest to it: a factor of 1.4 typed into the settings form is 7/5 here
  and \<open>toDouble (7/5)\<close> in the product with the base points.
\<close>

record Task =
  t_id :: string
  t_points :: int
  t_dueDate :: "int option"
  t_completedAt :: "int option"

datatype HabitType = Binary | Counter

record Habit =
  h_id :: string
  h_type :: HabitType
  h_target :: int
  h_points :: int
  h_schedule :: "weekday list"

record HabitLog =
  l_habitId :: string
  l_date :: dateStr
  l_count :: int

record Event =
  ev_id :: string
  ev_pointsEnabled :: bool
  ev_points :: int
  ev_completedAt :: "int option"

record QuestLibrary =
  q_id :: string
  q_basePoints :: int
  q_active :: bool

datatype QuestType = Daily | Weekly

record AssignedQuest =
  aq_id :: string
  aq_libraryId :: string
  aq_type :: QuestType
  aq_date :: "dateStr option"
  aq_weekOf :: "dateStr option"
  aq_multiplier :: rat
  aq_completedAt :: "int option"

record DaySummary =
  date :: dateStr
  totalPoints :: int
  goalMet :: bool

datatype WeeklyQuestMode = Fixed | Range

record Settings =
  dailyGoal :: int
  dailyQuestCount :: int
  weekStart :: string
  weeklyQuestMode :: WeeklyQuestMode
  weeklyQuestCount :: int
  weeklyQuestMin :: int
  weeklyQuestMax :: int
  weeklyFactor :: rat

record Meta =
  streak :: int
  bestStreak :: int
  lastAssignmentRun :: "dateStr option"
  lastWeekStart :: "dateStr option"

definition DefaultSettings :: Settings where
  "DefaultSettings = \<lparr>dailyGoal = 100, dailyQuestCount = 3, weekStart = ''Mon'',
     weeklyQuestMode = Fixed, weeklyQuestCount = 3, weeklyQuestMin = 2, weeklyQuestMax = 4,
     weeklyFactor = 3 / 2\<rparr>"

definition DefaultMeta :: Meta where
  "DefaultMeta = \<lparr>streak = 0, bestStreak = 0, lastAssignmentRun = None, lastWeekStart = None\<rparr>"

text \<open>
  The in-memory state. \<open>randomCalls\<close> is not a field of the source's \<^verbatim>\<open>AppState\<close>: it
  counts the calls of \<^verbatim>\<open>Math.random()\<close> made so far, the hidden state of the runtime's
  generator.
\<close>

record AppState =
  settings :: Settings
  meta :: Meta
  tasks :: "Task list"
  habits :: "Habit list"
  habitLogs :: "HabitLog list"
  events :: "Event list"
  questLibrary :: "QuestLibrary list"
  assignedQuests :: "AssignedQuest list"
  daySummaries :: "DaySummary list"
  randomCalls :: nat

text \<open>
  The runtime. \<open>dateStartMs env d\<close> is \<^verbatim>\<open>new Date(d + 'T00:00:00')\<close> and \<open>dateEndMs env d\<close>
  is \<^verbatim>\<open>new Date(d + 'T23:59:59.999')\<close>, in milliseconds; \<open>getDay env d\<close> is
  \<^verbatim>\<open>weekdays[new Date(d).getDay()]\<close>, the weekday the runtime reports for the day
  string; \<open>weekOf env d ws\<close> is \<^verbatim>\<open>weekOf(new Date(d), ws)\<close>; \<open>mathRandom env k\<close> is the
  value of the \<open>k\<close>-th call of \<^verbatim>\<open>Math.random()\<close>; \<open>uidText env p r\<close> is the id
  \<^verbatim>\<open>uid(p)\<close> builds when its call of \<^verbatim>\<open>Math.random()\<close> returns \<open>r\<close>.
\<close>

record Env =
  dateStartMs :: "dateStr \<Rightarrow> int"
  dateEndMs :: "dateStr \<Rightarrow> int"
  getDay :: "dateStr \<Rightarrow> weekday"
  weekOf :: "dateStr \<Rightarrow> string \<Rightarrow> dateStr"
  mathRandom :: "nat \<Rightarrow> rat"
  uidText :: "string \<Rightarrow> rat \<Rightarrow> string"

text \<open>\<^verbatim>\<open>Math.random()\<close> returns a number in the half-open interval from 0 to 1.\<close>

definition validRandom :: "Env \<Rightarrow> bool" where
  "validRandom env = (\<forall>k. 0 \<le> mathRandom env k \<and> mathRandom env k < 1)"

subsection \<open>Dates in the runtime\<close>

text \<open>
  What a JavaScript runtime computes for a day string, in a zone that is \<open>offset\<close> minutes
  east of UTC all year. \<open>daysFromCivil d\<close> counts the days from 1 January 1970 to the day the
  string names (proleptic Gregorian calendar); day 0 was a Thursday, so \<open>weekdayOf d\<close> is the
  weekday of that day. A date-only string is parsed as midnight UTC: \<^verbatim>\<open>new Date(d)\<close> is the
  instant \<open>daysFromCivil d * 86400000\<close>, and \<^verbatim>\<open>getDay()\<close> reads the weekday of that instant
  in local time (\<open>jsGetDay\<close>). A string with a time and no zone is parsed as local time:
  \<^verbatim>\<open>new Date(d + 'T00:00:00')\<close> is local midnight (\<open>jsDateStartMs\<close>).
  \<^verbatim>\<open>weekOf(new Date(d), ws)\<close> (app.js 22-29) takes the local day of that instant, goes
  back to the start of its week in local days, and prints the local date (\<open>jsWeekOf\<close>);
  \<open>civilFromDays\<close> is the inverse of \<open>daysFromCivil\<close>.
\<close>

fun daysFromCivil :: "dateStr \<Rightarrow> int" where
  "daysFromCivil (YMD y m d) =
     (let y' = (if m \<le> 2 then int y - 1 else int y);
          era = y' div 400;
          yoe = y' - era * 400;
          mp = (if 2 < m then int m - 3 else int m + 9);
          doy = (153 * mp + 2) div 5 + int d - 1;
          doe = yoe * 365 + yoe div 4 - yoe div 100 + doy
      in era * 146097 + doe - 719468)"

definition weekdayOfDay :: "int \<Rightarrow> weekday" where
  "weekdayOfDay n = [Thu, Fri, Sat, Sun, Mon, Tue, Wed] ! nat (n mod 7)"

definition weekdayOf :: "dateStr \<Rightarrow> weekday" where
  "weekdayOf d = weekdayOfDay (daysFromCivil d)"

definition jsDateStartMs :: "int \<Rightarrow> dateStr \<Rightarrow> int" where
  "jsDateStartMs offset d = daysFromCivil d * 86400000 - offset * 60000"

definition jsDateEndMs :: "int \<Rightarrow> dateStr \<Rightarrow> int" where
  "jsDateEndMs offset d = daysFromCivil d * 86400000 - offset * 60000 + 86399999"

definition jsGetDay :: "int \<Rightarrow> dateStr \<Rightarrow> weekday" where
  "jsGetDay offset d = weekdayOfDay ((daysFromCivil d * 86400000 + offset * 60000) div 86400000)"

definition civilFromDays :: "int \<Rightarrow> dateStr" where
  "civilFromDays n =
     (let z = n + 719468;
          era = z div 146097;
          doe = z - era * 146097;
          yoe = (doe - doe div 1460 + doe div 36524 - doe div 146096) div 365;
          doy = doe - (365 * yoe + yoe div 4 - yoe div 100);
          mp = (5 * doy + 2) div 153;
          d = doy - (153 * mp + 2) div 5 + 1;
          m = (if mp < 10 then mp + 3 else mp - 9);
          y = yoe + era * 400 + (if m \<le> 2 then 1 else 0)
      in YMD (nat y) (nat m) (nat d))"

definition jsWeekOf :: "int \<Rightarrow> dateStr \<Rightarrow> string \<Rightarrow> dateStr" where
  "jsWeekOf offset d ws =
     (let localDay = (daysFromCivil d * 86400000 + offset * 60000) div 86400000;
          day = (localDay + 4) mod 7;
          shift = (if ws = ''Mon'' then (if day = 0 then 6 else day - 1) else day)
      in civilFromDays (localDay - shift))"

text \<open>The runtime \<open>env\<close> with the \<^verbatim>\<open>Date\<close> of a browser in that zone.\<close>

definition jsRuntime :: "int \<Rightarrow> Env \<Rightarrow> Env" where
  "jsRuntime offset env =
     env\<lparr>dateStartMs := jsDateStartMs offset, dateEndMs := jsDateEndMs offset,
         getDay := jsGetDay offset, weekOf := jsWeekOf offset\<rparr>"

subsection \<open>Points and summaries (app.js 178-263)\<close>

text \<open>One pass of the loop over \<^verbatim>\<open>AppState.tasks\<close>: what it adds to \<^verbatim>\<open>total\<close>.\<close>

definition taskPoints :: "Env \<Rightarrow> dateStr \<Rightarrow> Task \<Rightarrow> int" where
  "taskPoints env dateStr t =
     (case t_completedAt t of
        None \<Rightarrow> 0
      | Some cmp \<Rightarrow>
          if dateStartMs env dateStr \<le> cmp \<and> cmp \<le> dateEndMs env dateStr then
            (case t_dueDate t of
               Some due \<Rightarrow> if cmp \<le> due then orElse (t_points t) 0 else 0
             | None \<Rightarrow> orElse (t_points t) 0)
          else 0)"

text \<open>One pass of the loop over \<^verbatim>\<open>todaysHabitLogs\<close>.\<close>

definition habitLogPoints :: "Env \<Rightarrow> AppState \<Rightarrow> dateStr \<Rightarrow> HabitLog \<Rightarrow> int" where
  "habitLogPoints env st dateStr lg =
     (case find (\<lambda>h. h_id h = l_habitId lg) (habits st) of
        None \<Rightarrow> 0
      | Some habit \<Rightarrow>
          if getDay env dateStr \<notin> set (h_schedule habit) then 0
          else if h_type habit = Binary then
            (if l_count lg \<ge> 1 then orElse (h_points habit) 0 else 0)
          else
            \<lfloor>numMul
               (numDiv (of_int (clamp (orElse (l_count lg) 0) 0 (orElse (h_target habit) 1)))
                       (of_int (orElse (h_target habit) 1)))
               (of_int (orElse (h_points habit) 0))\<rfloor>)"

text \<open>One pass of the loop over \<^verbatim>\<open>AppState.events\<close>.\<close>

definition eventPoints :: "Env \<Rightarrow> dateStr \<Rightarrow> Event \<Rightarrow> int" where
  "eventPoints env dateStr ev =
     (if \<not> ev_pointsEnabled ev then 0
      else case ev_completedAt ev of
        None \<Rightarrow> 0
      | Some cmp \<Rightarrow>
          if dateStartMs env dateStr \<le> cmp \<and> cmp \<le> dateEndMs env dateStr
          then orElse (ev_points ev) 0 else 0)"

text \<open>One pass of the loop over \<^verbatim>\<open>AppState.assignedQuests\<close>.\<close>

definition questPoints :: "Env \<Rightarrow> AppState \<Rightarrow> dateStr \<Rightarrow> AssignedQuest \<Rightarrow> int" where
  "questPoints env st dateStr aq =
     (case aq_completedAt aq of
        None \<Rightarrow> 0
      | Some cmp \<Rightarrow>
          if dateStartMs env dateStr \<le> cmp \<and> cmp \<le> dateEndMs env dateStr then
            (case find (\<lambda>q. q_id q = aq_libraryId aq) (questLibrary st) of
               None \<Rightarrow> 0
             | Some lib \<Rightarrow>
                 \<lfloor>numMul (of_int (orElse (q_basePoints lib) 0))
                    (toDouble (orElse (aq_multiplier aq) 1))\<rfloor>)
          else 0)"

definition computeDayTotals :: "Env \<Rightarrow> AppState \<Rightarrow> dateStr \<Rightarrow> DaySummary" where
  "computeDayTotals env st dateStr =
     (let total = 0;
          total = fold (\<lambda>t total. total + taskPoints env dateStr t) (tasks st) total;
          todaysHabitLogs = filter (\<lambda>h. l_date h = dateStr) (habitLogs st);
          total = fold (\<lambda>lg total. total + habitLogPoints env st dateStr lg) todaysHabitLogs total;
          total = fold (\<lambda>ev total. total + eventPoints env dateStr ev) (events st) total;
          total = fold (\<lambda>aq total. total + questPoints env st dateStr aq) (assignedQuests st) total;
          goalMet = (total \<ge> orElse (dailyGoal (settings st)) 0)
      in \<lparr>date = dateStr, totalPoints = total, goalMet = goalMet\<rparr>)"

text \<open>\<^verbatim>\<open>Array.prototype.findIndex\<close>; \<open>None\<close> stands for the result -1.\<close>

fun findIndex :: "('a \<Rightarrow> bool) \<Rightarrow> 'a list \<Rightarrow> nat option" where
  "findIndex P [] = None"
| "findIndex P (x # xs) = (if P x then Some 0 else map_option Suc (findIndex P xs))"

text \<open>\<^verbatim>\<open>upsertDaySummary\<close> returns the summary and leaves the updated state.\<close>

definition upsertDaySummary :: "Env \<Rightarrow> dateStr \<Rightarrow> AppState \<Rightarrow> DaySummary \<times> AppState" where
  "upsertDaySummary env dateStr st =
     (let daySum = computeDayTotals env st dateStr in
      case findIndex (\<lambda>d. date d = dateStr) (daySummaries st) of
        Some idx \<Rightarrow> (daySum, st\<lparr>daySummaries := (daySummaries st)[idx := daySum]\<rparr>)
      | None \<Rightarrow> (daySum, st\<lparr>daySummaries := daySummaries st @ [daySum]\<rparr>))"

text \<open>The loop of \<^verbatim>\<open>allScheduledHabitsComplete\<close> over \<^verbatim>\<open>todays\<close>, with its early returns.\<close>

fun scheduledLoop :: "AppState \<Rightarrow> dateStr \<Rightarrow> Habit list \<Rightarrow> bool" where
  "scheduledLoop st dateStr [] = True"
| "scheduledLoop st dateStr (h # hs) =
     (case find (\<lambda>l. l_habitId l = h_id h \<and> l_date l = dateStr) (habitLogs st) of
        None \<Rightarrow> False
      | Some lg \<Rightarrow>
          if h_type h = Binary then
            (if orElse (l_count lg) 0 < 1 then False else scheduledLoop st dateStr hs)
          else
            (if orElse (l_count lg) 0 < orElse (h_target h) 1 then False
             else scheduledLoop st dateStr hs))"

definition allScheduledHabitsComplete :: "Env \<Rightarrow> AppState \<Rightarrow> dateStr \<Rightarrow> bool" where
  "allScheduledHabitsComplete env st dateStr =
     (let weekday = getDay env dateStr;
          todays = filter (\<lambda>h. weekday \<in> set (h_schedule h)) (habits st)
      in if length todays = 0 then True else scheduledLoop st dateStr todays)"

subsection \<open>Assignment (app.js 267-318)\<close>

text \<open>
  The Fisher-Yates loop of \<^verbatim>\<open>randomSample\<close>: \<open>shuffleLoop env a i k\<close> runs the passes
  \<open>i, i - 1, ..., 1\<close> on the copy \<open>a\<close>, the next call of \<^verbatim>\<open>Math.random()\<close> being the
  \<open>k\<close>-th. The index \<open>j\<close> is within the array whenever the drawn value is in the interval
  \<^verbatim>\<open>Math.random()\<close> promises.
\<close>

fun shuffleLoop :: "Env \<Rightarrow> 'a list \<Rightarrow> nat \<Rightarrow> nat \<Rightarrow> 'a list \<times> nat" where
  "shuffleLoop env a 0 k = (a, k)"
| "shuffleLoop env a (Suc m) k =
     (let i = Suc m;
          j = nat \<lfloor>mathRandom env k * of_nat (i + 1)\<rfloor>
      in shuffleLoop env (a[i := a ! j, j := a ! i]) m (Suc k))"

text \<open>\<^verbatim>\<open>a.slice(0, n)\<close>: a negative end counts from the end of the array.\<close>

definition slice0 :: "'a list \<Rightarrow> int \<Rightarrow> 'a list" where
  "slice0 a n =
     (let len = int (length a);
          e = (if n < 0 then max (len + n) 0 else min n len)
      in take (nat e) a)"

definition randomSample :: "Env \<Rightarrow> 'a list \<Rightarrow> int \<Rightarrow> nat \<Rightarrow> 'a list \<times> nat" where
  "randomSample env arr n k =
     (let (a, k') = shuffleLoop env arr (length arr - 1) k in (slice0 a n, k'))"

text \<open>
  Building the created records: one \<^verbatim>\<open>uid('aq')\<close>, hence one call of
  \<^verbatim>\<open>Math.random()\<close>, for each chosen library entry, in order.
\<close>

fun createAssigned ::
  "Env \<Rightarrow> (string \<Rightarrow> QuestLibrary \<Rightarrow> AssignedQuest) \<Rightarrow> QuestLibrary list \<Rightarrow> nat
    \<Rightarrow> AssignedQuest list \<times> nat" where
  "createAssigned env mk [] k = ([], k)"
| "createAssigned env mk (q # qs) k =
     (let c = mk (uidText env ''aq'' (mathRandom env k)) q;
          (cs, k') = createAssigned env mk qs (Suc k)
      in (c # cs, k'))"

definition assignDailyQuests :: "Env \<Rightarrow> dateStr \<Rightarrow> AppState \<Rightarrow> AppState" where
  "assignDailyQuests env dateStr st =
     (let N = orElse (dailyQuestCount (settings st)) 0;
          pool = filter q_active (questLibrary st);
          (chosen, k1) = randomSample env pool (min N (int (length pool))) (randomCalls st);
          (created, k2) = createAssigned env
             (\<lambda>i q. \<lparr>aq_id = i, aq_libraryId = q_id q, aq_type = Daily, aq_date = Some dateStr,
                      aq_weekOf = None, aq_multiplier = 1, aq_completedAt = None\<rparr>) chosen k1
      in if length created \<noteq> 0
         then st\<lparr>assignedQuests := assignedQuests st @ created, randomCalls := k2\<rparr>
         else st\<lparr>randomCalls := k2\<rparr>)"

text \<open>The \<^verbatim>\<open>count\<close> of \<^verbatim>\<open>assignWeeklyQuests\<close>; range mode draws one random number.\<close>

definition weeklyCount :: "Env \<Rightarrow> AppState \<Rightarrow> int \<times> nat" where
  "weeklyCount env st =
     (let s = settings st; k = randomCalls st in
      if weeklyQuestMode s = Range
      then (max 0 (\<lfloor>mathRandom env k * of_int (weeklyQuestMax s - weeklyQuestMin s + 1)\<rfloor>
                   + weeklyQuestMin s), Suc k)
      else (orElse (weeklyQuestCount s) 0, k))"

definition assignWeeklyQuests :: "Env \<Rightarrow> dateStr \<Rightarrow> AppState \<Rightarrow> AppState" where
  "assignWeeklyQuests env weekStartStr st =
     (let s = settings st;
          pool = filter q_active (questLibrary st);
          (cnt, k0) = weeklyCount env st;
          (chosen, k1) = randomSample env pool (min cnt (int (length pool))) k0;
          (created, k2) = createAssigned env
             (\<lambda>i q. \<lparr>aq_id = i, aq_libraryId = q_id q, aq_type = Weekly, aq_date = None,
                      aq_weekOf = Some weekStartStr, aq_multiplier = orElse (weeklyFactor s) 1,
                      aq_completedAt = None\<rparr>) chosen k1
      in if length created \<noteq> 0
         then st\<lparr>assignedQuests := assignedQuests st @ created, randomCalls := k2\<rparr>
         else st\<lparr>randomCalls := k2\<rparr>)"

subsection \<open>Rollover (app.js 322-376)\<close>

text \<open>
  The streak update of the day-changed branch, on the summary of the previous day.
\<close>

definition updateStreak :: "Env \<Rightarrow> AppState \<Rightarrow> dateStr \<Rightarrow> DaySummary \<Rightarrow> Meta \<Rightarrow> Meta" where
  "updateStreak env st prev daySum m =
     (if goalMet daySum \<and> allScheduledHabitsComplete env st prev then
        (let m1 = m\<lparr>streak := orElse (streak m) 0 + 1\<rparr> in
         if streak m1 > orElse (bestStreak m1) 0 then m1\<lparr>bestStreak := streak m1\<rparr> else m1)
      else m\<lparr>streak := 0\<rparr>)"

text \<open>
  \<open>today\<close> is the value of \<^verbatim>\<open>todayStr()\<close> when the call starts. The object \<^verbatim>\<open>meta\<close> is
  \<^verbatim>\<open>AppState.meta\<close> itself, so each assignment to one of its fields is an update of the
  state's \<open>meta\<close>.
\<close>

definition ensureRollover :: "Env \<Rightarrow> dateStr \<Rightarrow> AppState \<Rightarrow> AppState" where
  "ensureRollover env today st =
     (case lastAssignmentRun (meta st) of
        None \<Rightarrow>
          (let st1 = assignDailyQuests env today st;
               ws = weekOf env today (weekStart (settings st));
               st2 = assignWeeklyQuests env ws st1;
               st3 = st2\<lparr>meta := (meta st2)\<lparr>lastAssignmentRun := Some today,
                                               lastWeekStart := Some ws\<rparr>\<rparr>
           in snd (upsertDaySummary env today st3))
      | Some prev \<Rightarrow>
          if prev \<noteq> today then
            (let (daySum, st1) = upsertDaySummary env prev st;
                 st2 = st1\<lparr>meta := updateStreak env st1 prev daySum (meta st1)\<rparr>;
                 st3 = assignDailyQuests env today st2;
                 st4 = snd (upsertDaySummary env today st3);
                 lastWeek = (case lastWeekStart (meta st4) of
                               Some w \<Rightarrow> w
                             | None \<Rightarrow> weekOf env prev (weekStart (settings st)));
                 currentWeek = weekOf env today (weekStart (settings st));
                 st5 = (if currentWeek \<noteq> lastWeek
                        then (let st' = assignWeeklyQuests env currentWeek st4
                              in st'\<lparr>meta := (meta st')\<lparr>lastWeekStart := Some currentWeek\<rparr>\<rparr>)
                        else st4)
             in st5\<lparr>meta := (meta st5)\<lparr>lastAssignmentRun := Some today\<rparr>\<rparr>)
          else snd (upsertDaySummary env today st))"

text \<open>
  The states the application reaches from a freshly created lifecycle record: it starts
  with \<open>DefaultMeta\<close>, runs \<open>ensureRollover\<close> at any day, and between two runs changes
  anything but the lifecycle record (no other function of the source writes it).
\<close>

inductive reachable :: "Env \<Rightarrow> AppState \<Rightarrow> bool" for env :: Env where
  boot: "meta st = DefaultMeta \<Longrightarrow> reachable env st"
| rollover: "reachable env st \<Longrightarrow> reachable env (ensureRollover env today st)"
| other: "reachable env st \<Longrightarrow> meta st' = meta st \<Longrightarrow> reachable env st'"

subsection \<open>The calls as they run: suspension at storage (app.js 242-376)\<close>

text \<open>
  \<open>ensureRollover\<close> above is one call run from its first line to its return with nothing in
  between. The source function is \<^verbatim>\<open>async\<close>: at every \<^verbatim>\<open>await\<close> on a storage request the
  call is suspended until the request completes, and the timer and the visibility handler
  (app.js 1539-1558) may start another call meanwhile. An \<^verbatim>\<open>await\<close> on a helper that made
  no storage request resumes before any other callback, so the storage requests are the
  only points where calls interleave.

  A suspended call is \<open>Pending today aw nxt\<close>: its local \<^verbatim>\<open>today\<close>, the request it waits
  for, and the place in \<^verbatim>\<open>ensureRollover\<close> where it goes on. The requests:
  \<^item> \<open>PutSummary dateStr daySum\<close>: inside \<^verbatim>\<open>upsertDaySummary\<close>, at
    \<^verbatim>\<open>await db.set('daySummaries', sum)\<close>; on completion the cached list is updated;
  \<^item> \<open>PutQuests created\<close>: inside \<^verbatim>\<open>assignDailyQuests\<close> or \<^verbatim>\<open>assignWeeklyQuests\<close>, at
    \<^verbatim>\<open>await db.bulkPut('assignedQuests', created)\<close>; on completion \<^verbatim>\<open>created\<close> is pushed;
  \<^item> \<open>PutMeta\<close>: at \<^verbatim>\<open>await db.set('meta', meta)\<close>; on completion \<^verbatim>\<open>AppState.meta = meta\<close>
    stores the object that is there already.
\<close>

datatype Awaited =
    PutSummary dateStr DaySummary
  | PutQuests "AssignedQuest list"
  | PutMeta

text \<open>
  Where the call goes on: in the first-run branch after \<^verbatim>\<open>assignDailyQuests\<close>, after
  \<^verbatim>\<open>assignWeeklyQuests(ws)\<close>, after the write of \<^verbatim>\<open>meta\<close>; in the day-changed branch after
  \<^verbatim>\<open>upsertDaySummary(prev)\<close> (which returned the summary carried along), after
  \<^verbatim>\<open>assignDailyQuests(today)\<close>, after \<^verbatim>\<open>upsertDaySummary(today)\<close>, after
  \<^verbatim>\<open>assignWeeklyQuests(currentWeek)\<close>; or at the return.
\<close>

datatype Next =
    FirstAfterDaily
  | FirstAfterWeekly dateStr
  | FirstAfterMeta
  | ChangedAfterPrev dateStr DaySummary
  | ChangedAfterDaily dateStr
  | ChangedAfterToday dateStr
  | ChangedAfterWeekly dateStr
  | Finish

datatype Pending = Pending dateStr Awaited Next

text \<open>
  The part of \<^verbatim>\<open>assignDailyQuests\<close> and of \<^verbatim>\<open>assignWeeklyQuests\<close> before the storage
  request: the records created, and the count of random draws after them.
\<close>

definition dailyCreated :: "Env \<Rightarrow> dateStr \<Rightarrow> AppState \<Rightarrow> AssignedQuest list \<times> nat" where
  "dailyCreated env dateStr st =
     (let N = orElse (dailyQuestCount (settings st)) 0;
          pool = filter q_active (questLibrary st);
          (chosen, k1) = randomSample env pool (min N (int (length pool))) (randomCalls st)
      in createAssigned env
           (\<lambda>i q. \<lparr>aq_id = i, aq_libraryId = q_id q, aq_type = Daily, aq_date = Some dateStr,
                    aq_weekOf = None, aq_multiplier = 1, aq_completedAt = None\<rparr>) chosen k1)"

definition weeklyCreated :: "Env \<Rightarrow> dateStr \<Rightarrow> AppState \<Rightarrow> AssignedQuest list \<times> nat" where
  "weeklyCreated env weekStartStr st =
     (let s = settings st;
          pool = filter q_active (questLibrary st);
          (cnt, k0) = weeklyCount env st;
          (chosen, k1) = randomSample env pool (min cnt (int (length pool))) k0
      in createAssigned env
           (\<lambda>i q. \<lparr>aq_id = i, aq_libraryId = q_id q, aq_type = Weekly, aq_date = None,
                    aq_weekOf = Some weekStartStr, aq_multiplier = orElse (weeklyFactor s) 1,
                    aq_completedAt = None\<rparr>) chosen k1)"

text \<open>What the helper does once its storage request has completed.\<close>

definition finishAwait :: "Awaited \<Rightarrow> AppState \<Rightarrow> AppState" where
  "finishAwait aw st =
     (case aw of
        PutSummary dateStr daySum \<Rightarrow>
          (case findIndex (\<lambda>d. date d = dateStr) (daySummaries st) of
             Some idx \<Rightarrow> st\<lparr>daySummaries := (daySummaries st)[idx := daySum]\<rparr>
           | None \<Rightarrow> st\<lparr>daySummaries := daySummaries st @ [daySum]\<rparr>)
      | PutQuests created \<Rightarrow> st\<lparr>assignedQuests := assignedQuests st @ created\<rparr>
      | PutMeta \<Rightarrow> st)"

text \<open>
  A call of \<^verbatim>\<open>upsertDaySummary(dateStr)\<close>: it computes the summary and is suspended at
  the storage request.
\<close>

definition awaitSummary :: "Env \<Rightarrow> dateStr \<Rightarrow> dateStr \<Rightarrow> Next \<Rightarrow> AppState \<Rightarrow> Pending \<times> AppState" where
  "awaitSummary env today dateStr nxt st =
     (Pending today (PutSummary dateStr (computeDayTotals env st dateStr)) nxt, st)"

text \<open>
  The day-changed branch, from its end backwards: the write of \<open>lastAssignmentRun\<close>
  (app.js 369-370), the line after \<^verbatim>\<open>assignWeeklyQuests\<close> (366), the weekly check
  (362-367), \<^verbatim>\<open>upsertDaySummary(today)\<close> (359), and the streak update followed by
  \<^verbatim>\<open>assignDailyQuests(today)\<close> (347-356). A helper that creates nothing makes no storage
  request, and the call goes straight on.
\<close>

definition changedSetRun :: "dateStr \<Rightarrow> AppState \<Rightarrow> Pending \<times> AppState" where
  "changedSetRun today st =
     (Pending today PutMeta Finish, st\<lparr>meta := (meta st)\<lparr>lastAssignmentRun := Some today\<rparr>\<rparr>)"

definition changedAfterWeekly :: "dateStr \<Rightarrow> dateStr \<Rightarrow> AppState \<Rightarrow> Pending \<times> AppState" where
  "changedAfterWeekly today currentWeek st =
     changedSetRun today (st\<lparr>meta := (meta st)\<lparr>lastWeekStart := Some currentWeek\<rparr>\<rparr>)"

definition changedAfterToday :: "Env \<Rightarrow> dateStr \<Rightarrow> dateStr \<Rightarrow> AppState \<Rightarrow> Pending \<times> AppState" where
  "changedAfterToday env today prev st =
     (let lastWeek = (case lastWeekStart (meta st) of
                        Some w \<Rightarrow> w
                      | None \<Rightarrow> weekOf env prev (weekStart (settings st)));
          currentWeek = weekOf env today (weekStart (settings st))
      in if currentWeek \<noteq> lastWeek then
           (let (created, k) = weeklyCreated env currentWeek st;
                st1 = st\<lparr>randomCalls := k\<rparr>
            in if length created \<noteq> 0
               then (Pending today (PutQuests created) (ChangedAfterWeekly currentWeek), st1)
               else changedAfterWeekly today currentWeek st1)
         else changedSetRun today st)"

definition changedAfterDaily :: "Env \<Rightarrow> dateStr \<Rightarrow> dateStr \<Rightarrow> AppState \<Rightarrow> Pending \<times> AppState" where
  "changedAfterDaily env today prev st = awaitSummary env today today (ChangedAfterToday prev) st"

definition changedAfterPrev ::
  "Env \<Rightarrow> dateStr \<Rightarrow> dateStr \<Rightarrow> DaySummary \<Rightarrow> AppState \<Rightarrow> Pending \<times> AppState" where
  "changedAfterPrev env today prev daySum st =
     (let st2 = st\<lparr>meta := updateStreak env st prev daySum (meta st)\<rparr>;
          (created, k) = dailyCreated env today st2;
          st3 = st2\<lparr>randomCalls := k\<rparr>
      in if length created \<noteq> 0
         then (Pending today (PutQuests created) (ChangedAfterDaily prev), st3)
         else changedAfterDaily env today prev st3)"

text \<open>The first-run branch, from its end backwards (app.js 337, 333-335, 331-332).\<close>

definition firstAfterMeta :: "Env \<Rightarrow> dateStr \<Rightarrow> AppState \<Rightarrow> Pending \<times> AppState" where
  "firstAfterMeta env today st = awaitSummary env today today Finish st"

definition firstAfterWeekly :: "dateStr \<Rightarrow> dateStr \<Rightarrow> AppState \<Rightarrow> Pending \<times> AppState" where
  "firstAfterWeekly today ws st =
     (Pending today PutMeta FirstAfterMeta,
      st\<lparr>meta := (meta st)\<lparr>lastAssignmentRun := Some today, lastWeekStart := Some ws\<rparr>\<rparr>)"

definition firstAfterDaily :: "Env \<Rightarrow> dateStr \<Rightarrow> AppState \<Rightarrow> Pending \<times> AppState" where
  "firstAfterDaily env today st =
     (let ws = weekOf env today (weekStart (settings st));
          (created, k) = weeklyCreated env ws st;
          st1 = st\<lparr>randomCalls := k\<rparr>
      in if length created \<noteq> 0
         then (Pending today (PutQuests created) (FirstAfterWeekly ws), st1)
         else firstAfterWeekly today ws st1)"

text \<open>
  The call from its first line to its first storage request. In the day-changed and the
  same-day branch that request is the write of a summary, and the state is as it was.
\<close>

definition ensureRolloverStart :: "Env \<Rightarrow> dateStr \<Rightarrow> AppState \<Rightarrow> Pending \<times> AppState" where
  "ensureRolloverStart env today st =
     (case lastAssignmentRun (meta st) of
        None \<Rightarrow>
          (let (created, k) = dailyCreated env today st;
               st1 = st\<lparr>randomCalls := k\<rparr>
           in if length created \<noteq> 0
              then (Pending today (PutQuests created) FirstAfterDaily, st1)
              else firstAfterDaily env today st1)
      | Some prev \<Rightarrow>
          if prev \<noteq> today then
            awaitSummary env today prev
              (ChangedAfterPrev prev (computeDayTotals env st prev)) st
          else awaitSummary env today today Finish st)"

text \<open>A suspended call whose request has completed runs to its next request, or returns.\<close>

fun resume :: "Env \<Rightarrow> Pending \<Rightarrow> AppState \<Rightarrow> Pending option \<times> AppState" where
  "resume env (Pending today aw nxt) st =
     (let st1 = finishAwait aw st in
      case nxt of
        FirstAfterDaily \<Rightarrow> map_prod Some id (firstAfterDaily env today st1)
      | FirstAfterWeekly ws \<Rightarrow> map_prod Some id (firstAfterWeekly today ws st1)
      | FirstAfterMeta \<Rightarrow> map_prod Some id (firstAfterMeta env today st1)
      | ChangedAfterPrev prev daySum \<Rightarrow> map_prod Some id (changedAfterPrev env today prev daySum st1)
      | ChangedAfterDaily prev \<Rightarrow> map_prod Some id (changedAfterDaily env today prev st1)
      | ChangedAfterToday prev \<Rightarrow> map_prod Some id (changedAfterToday env today prev st1)
      | ChangedAfterWeekly currentWeek \<Rightarrow> map_prod Some id (changedAfterWeekly today currentWeek st1)
      | Finish \<Rightarrow> (None, st1))"

text \<open>
  Storage completes the requests in the order they were made: \<open>drain env ps st\<close> resumes
  the suspended calls \<open>ps\<close> from the head, and a call that is suspended again waits at the
  end. \<open>awaitsLeft\<close> bounds the requests a call can still make, so every run ends.
\<close>

fun awaitsLeft :: "Pending \<Rightarrow> nat" where
  "awaitsLeft (Pending today aw nxt) =
     (case nxt of
        FirstAfterDaily \<Rightarrow> 4 | FirstAfterWeekly ws \<Rightarrow> 3 | FirstAfterMeta \<Rightarrow> 2
      | ChangedAfterPrev prev daySum \<Rightarrow> 5 | ChangedAfterDaily prev \<Rightarrow> 4
      | ChangedAfterToday prev \<Rightarrow> 3 | ChangedAfterWeekly currentWeek \<Rightarrow> 2 | Finish \<Rightarrow> 1)"

function drain :: "Env \<Rightarrow> Pending list \<Rightarrow> AppState \<Rightarrow> AppState" where
  "drain env [] st = st"
| "drain env (p # ps) st =
     (case resume env p st of
        (None, st') \<Rightarrow> drain env ps st'
      | (Some p', st') \<Rightarrow> drain env (ps @ [p']) st')"
  by pat_completeness auto
termination
proof (relation "measure (\<lambda>(env, ps, st). sum_list (map awaitsLeft ps))")
  show "wf (measure (\<lambda>(env, ps, st). sum_list (map awaitsLeft ps)))"
    by simp
next
  fix env p ps st x y
  assume "(x, y) = resume env p st" and "x = None"
  have "0 < awaitsLeft p"
    by (cases p) (auto split: Next.splits)
  then show "((env, ps, y), env, p # ps, st) \<in> measure (\<lambda>(env, ps, st). sum_list (map awaitsLeft ps))"
    by simp
next
  fix env p ps st x y p'
  assume "(x, y) = resume env p st" and "x = Some p'"
  then have "resume env p st = (Some p', y)"
    by simp
  then have "awaitsLeft p' < awaitsLeft p"
    by (cases p)
       (auto simp: Let_def firstAfterDaily_def firstAfterWeekly_def firstAfterMeta_def
          changedAfterPrev_def changedAfterDaily_def changedAfterToday_def changedAfterWeekly_def
          changedSetRun_def awaitSummary_def
          split: Next.splits prod.splits if_splits)
  then show "((env, ps @ [p'], y), env, p # ps, st) \<in> measure (\<lambda>(env, ps, st). sum_list (map awaitsLeft ps))"
    by simp
qed

declare drain.simps [simp del]

text \<open>
  One call alone; and two calls of which the second starts while the first waits for its
  first request.
\<close>

definition runAlone :: "Env \<Rightarrow> dateStr \<Rightarrow> AppState \<Rightarrow> AppState" where
  "runAlone env today st = (let (p, st1) = ensureRolloverStart env today st in drain env [p] st1)"

definition runOverlapping :: "Env \<Rightarrow> dateStr \<Rightarrow> AppState \<Rightarrow> AppState" where
  "runOverlapping env today st =
     (let (pA, st1) = ensureRolloverStart env today st;
          (pB, st2) = ensureRolloverStart env today st1
      in drain env [pA, pB] st2)"

text \<open>Measures on suspended calls used in the proofs: the call is past its streak update;
  the number of created quests it waits to push.\<close>

fun pastStreak :: "Pending \<Rightarrow> bool" where
  "pastStreak (Pending today aw nxt) =
     (case nxt of ChangedAfterPrev prev daySum \<Rightarrow> False | _ \<Rightarrow> True)"

fun pendingQuests :: "Pending \<Rightarrow> nat" where
  "pendingQuests (Pending today aw nxt) = (case aw of PutQuests created \<Rightarrow> length created | _ \<Rightarrow> 0)"

subsection \<open>Example data\<close>

text \<open>
  A runtime for the days from 8 to 31 January 2024 in a browser whose time zone is UTC:
  the 1st of the month is a Monday and starts 1704067200000 ms after the epoch.
\<close>

fun exDayOfMonth :: "dateStr \<Rightarrow> nat" where
  "exDayOfMonth (YMD y m dd) = dd"

definition exEnv :: Env where
  "exEnv = \<lparr>dateStartMs = (\<lambda>d. 1704067200000 + (int (exDayOfMonth d) - 1) * 86400000),
            dateEndMs = (\<lambda>d. 1704067200000 + (int (exDayOfMonth d) - 1) * 86400000 + 86399999),
            getDay = (\<lambda>d. [Sun, Mon, Tue, Wed, Thu, Fri, Sat] ! (exDayOfMonth d mod 7)),
            weekOf = (\<lambda>d ws. YMD 2024 1
               (exDayOfMonth d - (if ws = ''Mon'' then (exDayOfMonth d + 6) mod 7
                                  else exDayOfMonth d mod 7))),
            mathRandom = (\<lambda>k. of_nat (k mod 4) / 4),
            uidText = (\<lambda>p r. p @ ''_x'')\<rparr>"

text \<open>Monday 15 January 2024; its window starts at 1705276800000.\<close>

definition exDay :: dateStr where
  "exDay = YMD 2024 1 15"

text \<open>A task worth 60 points, due at 18:00 and completed at 20:00 of \<open>exDay\<close>.\<close>

definition exTask :: Task where
  "exTask = \<lparr>t_id = ''t1'', t_points = 60, t_dueDate = Some 1705341600000,
             t_completedAt = Some 1705348800000\<rparr>"

text \<open>A counter habit with target 3 worth 10 points, scheduled on working days.\<close>

definition exHabit :: Habit where
  "exHabit = \<lparr>h_id = ''h1'', h_type = Counter, h_target = 3, h_points = 10,
              h_schedule = [Mon, Tue, Wed, Thu, Fri]\<rparr>"

text \<open>Eleven library quests, ten of them active.\<close>

definition exQ :: "string \<Rightarrow> int \<Rightarrow> bool \<Rightarrow> QuestLibrary" where
  "exQ i p a = \<lparr>q_id = i, q_basePoints = p, q_active = a\<rparr>"

definition exLibrary :: "QuestLibrary list" where
  "exLibrary = [exQ ''q01'' 10 True, exQ ''q02'' 20 True, exQ ''q03'' 30 False,
                exQ ''q04'' 40 True, exQ ''q05'' 50 True, exQ ''q06'' 60 True,
                exQ ''q07'' 70 True, exQ ''q08'' 80 True, exQ ''q09'' 90 True,
                exQ ''q10'' 100 True, exQ ''q11'' 110 True]"

text \<open>A state with a daily goal of 50, one habit, the library and a fresh lifecycle record.\<close>

definition exState :: AppState where
  "exState = \<lparr>settings = DefaultSettings\<lparr>dailyGoal := 50\<rparr>, meta = DefaultMeta,
              tasks = [], habits = [exHabit], habitLogs = [], events = [],
              questLibrary = exLibrary, assignedQuests = [], daySummaries = [],
              randomCalls = 0\<rparr>"

text \<open>A log and a completed quest whose referents do not exist in \<open>exState\<close>.\<close>

definition exDanglingLog :: HabitLog where
  "exDanglingLog = \<lparr>l_habitId = ''h_deleted'', l_date = exDay, l_count = 2\<rparr>"

definition exDanglingQuest :: AssignedQuest where
  "exDanglingQuest = \<lparr>aq_id = ''aq_1'', aq_libraryId = ''q_deleted'', aq_type = Daily,
       aq_date = Some exDay, aq_weekOf = None, aq_multiplier = 1,
       aq_completedAt = Some 1705348800000\<rparr>"

text \<open>Two cached summaries, of 14 and 15 January.\<close>

definition exSummaries :: "DaySummary list" where
  "exSummaries = [\<lparr>date = YMD 2024 1 14, totalPoints = 70, goalMet = True\<rparr>,
                  \<lparr>date = YMD 2024 1 15, totalPoints = 5, goalMet = False\<rparr>]"

text \<open>Tuesday 16 January 2024.\<close>

definition exNextDay :: dateStr where
  "exNextDay = YMD 2024 1 16"

text \<open>An event worth 60 points, completed at 20:00 of \<open>exDay\<close>.\<close>

definition exEvent :: Event where
  "exEvent = \<lparr>ev_id = ''e1'', ev_pointsEnabled = True, ev_points = 60,
              ev_completedAt = Some 1705348800000\<rparr>"

text \<open>Logs of the habit \<open>h1\<close> on \<open>exDay\<close>, at counts 0, 1 and 3.\<close>

definition exLog0 :: HabitLog where
  "exLog0 = \<lparr>l_habitId = ''h1'', l_date = exDay, l_count = 0\<rparr>"

definition exLog1 :: HabitLog where
  "exLog1 = \<lparr>l_habitId = ''h1'', l_date = exDay, l_count = 1\<rparr>"

definition exLog3 :: HabitLog where
  "exLog3 = \<lparr>l_habitId = ''h1'', l_date = exDay, l_count = 3\<rparr>"

text \<open>
  A state last rolled over on \<open>exDay\<close>, with a streak of 4 and a best streak of 7; the
  goal of 50 is met by the event alone, and the habit's log is at count 0.
\<close>

definition exRunState :: AppState where
  "exRunState = exState\<lparr>meta := \<lparr>streak = 4, bestStreak = 7, lastAssignmentRun = Some exDay,
                                  lastWeekStart = Some exDay\<rparr>,
                         events := [exEvent], habitLogs := [exLog0]\<rparr>"

text \<open>The example state in range mode: between 2 and 4 weekly quests, factor 3/2.\<close>

definition exRangeState :: AppState where
  "exRangeState = exState\<lparr>settings := (settings exState)\<lparr>weeklyQuestMode := Range\<rparr>\<rparr>"

text \<open>
  The same runtime with the \<^verbatim>\<open>Date\<close> of a browser five hours west of UTC (New York in
  winter).
\<close>

definition exEnvWest :: Env where
  "exEnvWest = jsRuntime (- 300) exEnv"

text \<open>
  \<open>exRunState\<close> with the habit's log at its target: the goal of \<open>exDay\<close> is met and every
  scheduled habit is complete.
\<close>

definition exOverlapState :: AppState where
  "exOverlapState = exRunState\<lparr>habitLogs := [exLog3]\<rparr>"

section \<open>Properties\<close>

subsection \<open>The total of a day is the sum of the four loops\<close>

lemma fold_add: "fold (\<lambda>x acc. acc + f x) xs (a::int) = a + sum_list (map f xs)"
  by (induction xs arbitrary: a) simp_all

lemma totalPoints_computeDayTotals:
  "totalPoints (computeDayTotals env st d) =
     sum_list (map (taskPoints env d) (tasks st))
   + sum_list (map (habitLogPoints env st d) (filter (\<lambda>h. l_date h = d) (habitLogs st)))
   + sum_list (map (eventPoints env d) (events st))
   + sum_list (map (questPoints env st d) (assignedQuests st))"
  by (simp add: computeDayTotals_def Let_def fold_add)

lemma date_computeDayTotals: "date (computeDayTotals env st d) = d"
  by (simp add: computeDayTotals_def Let_def)

lemma goalMet_computeDayTotals:
  "goalMet (computeDayTotals env st d) =
     (orElse (dailyGoal (settings st)) 0 \<le> totalPoints (computeDayTotals env st d))"
  by (simp add: computeDayTotals_def Let_def)

lemma computeDayTotals_eqI:
  "settings st = settings st' \<Longrightarrow>
   totalPoints (computeDayTotals env st d) = totalPoints (computeDayTotals env st' d) \<Longrightarrow>
   computeDayTotals env st d = computeDayTotals env st' d"
  by (rule DaySummary.equality) (simp_all add: date_computeDayTotals goalMet_computeDayTotals)

lemma habitLogPoints_cong:
  "habits st = habits st' \<Longrightarrow> habitLogPoints env st d = habitLogPoints env st' d"
  by (rule ext) (simp add: habitLogPoints_def)

lemma questPoints_cong:
  "questLibrary st = questLibrary st' \<Longrightarrow> questPoints env st d = questPoints env st' d"
  by (rule ext) (simp add: questPoints_def split: option.splits)

text \<open>
  The model runs: a binary habit worth 20 points logged once on its scheduled day and an
  enabled event worth 40 points completed that day give 60 points, and a goal of 50 is met.
\<close>

lemma scenario_habit_and_event:
  "computeDayTotals exEnv
     (exState\<lparr>habits := [exHabit\<lparr>h_type := Binary, h_points := 20\<rparr>], habitLogs := [exLog1],
               events := [exEvent\<lparr>ev_points := 40\<rparr>]\<rparr>) exDay
   = \<lparr>date = exDay, totalPoints = 60, goalMet = True\<rparr>"
  by (simp add: computeDayTotals_def habitLogPoints_def eventPoints_def exState_def exHabit_def
      exLog1_def exEvent_def exEnv_def exDay_def DefaultSettings_def orElse_def)

subsection \<open>Overdue tasks\<close>

lemma taskPoints_overdue:
  "t_dueDate t = Some due \<Longrightarrow> t_completedAt t = Some cmp \<Longrightarrow> due < cmp \<Longrightarrow> taskPoints env d t = 0"
  by (simp add: taskPoints_def)

text \<open>
  C4. A task that has a due date and was completed strictly after it adds 0 to the total
  of any day, whatever its points: the summary of a day is the same with the task in the
  task list (at any position) as without it. In the scenario of a daily goal of 50 and,
  as the only completable item, such a task worth 60 points, the summary of the day is
  0 points with the goal not met.
\<close>

theorem overdue_task_scores_zero:
  assumes "t_dueDate t = Some due" and "t_completedAt t = Some cmp" and "due < cmp"
  shows "taskPoints env d t = 0 \<and>
         computeDayTotals env (st\<lparr>tasks := xs @ t # ys\<rparr>) d
           = computeDayTotals env (st\<lparr>tasks := xs @ ys\<rparr>) d \<and>
         computeDayTotals env
            (st\<lparr>settings := (settings st)\<lparr>dailyGoal := 50\<rparr>, tasks := [t\<lparr>t_points := 60\<rparr>],
                 habitLogs := [], events := [], assignedQuests := []\<rparr>) d
           = \<lparr>date = d, totalPoints = 0, goalMet = False\<rparr>"
proof -
  have z: "taskPoints env d t = 0"
    using assms by (rule taskPoints_overdue)
  have z60: "taskPoints env d (t\<lparr>t_points := 60\<rparr>) = 0"
    using assms by (simp add: taskPoints_def)
  have frame: "computeDayTotals env (st\<lparr>tasks := xs @ t # ys\<rparr>) d
           = computeDayTotals env (st\<lparr>tasks := xs @ ys\<rparr>) d"
    by (rule computeDayTotals_eqI)
       (simp_all add: totalPoints_computeDayTotals z
          habitLogPoints_cong [of "st\<lparr>tasks := xs @ t # ys\<rparr>" "st\<lparr>tasks := xs @ ys\<rparr>"]
          questPoints_cong [of "st\<lparr>tasks := xs @ t # ys\<rparr>" "st\<lparr>tasks := xs @ ys\<rparr>"])
  have scen: "computeDayTotals env
            (st\<lparr>settings := (settings st)\<lparr>dailyGoal := 50\<rparr>, tasks := [t\<lparr>t_points := 60\<rparr>],
                 habitLogs := [], events := [], assignedQuests := []\<rparr>) d
           = \<lparr>date = d, totalPoints = 0, goalMet = False\<rparr>"
    by (rule DaySummary.equality)
       (simp_all add: date_computeDayTotals goalMet_computeDayTotals
          totalPoints_computeDayTotals z60 orElse_def)
  from z frame scen show ?thesis by blast
qed

theorem overdue_task_scores_zero_witness:
  "t_dueDate exTask = Some 1705341600000 \<and> t_completedAt exTask = Some 1705348800000 \<and>
   dateStartMs exEnv exDay \<le> 1705348800000 \<and> 1705348800000 \<le> dateEndMs exEnv exDay \<and>
   taskPoints exEnv exDay exTask = 0 \<and>
   computeDayTotals exEnv (exState\<lparr>tasks := [] @ exTask # []\<rparr>) exDay
     = computeDayTotals exEnv (exState\<lparr>tasks := [] @ []\<rparr>) exDay \<and>
   computeDayTotals exEnv
      (exState\<lparr>settings := (settings exState)\<lparr>dailyGoal := 50\<rparr>,
                tasks := [exTask\<lparr>t_points := 60\<rparr>],
                habitLogs := [], events := [], assignedQuests := []\<rparr>) exDay
     = \<lparr>date = exDay, totalPoints = 0, goalMet = False\<rparr>"
proof -
  have due: "t_dueDate exTask = Some 1705341600000"
    and cmp: "t_completedAt exTask = Some 1705348800000"
    by (simp_all add: exTask_def)
  have window: "dateStartMs exEnv exDay \<le> 1705348800000 \<and> 1705348800000 \<le> dateEndMs exEnv exDay"
    by (simp add: exEnv_def exDay_def)
  have late: "(1705341600000::int) < 1705348800000"
    by simp
  from overdue_task_scores_zero [OF due cmp late, where env = exEnv and d = exDay
      and st = exState and xs = "[]" and ys = "[]"] due cmp window
  show ?thesis by blast
qed

subsection \<open>Dangling references\<close>

lemma habitLogPoints_dangling:
  "l_habitId lg \<notin> h_id ` set (habits st) \<Longrightarrow> habitLogPoints env st d lg = 0"
proof -
  assume a: "l_habitId lg \<notin> h_id ` set (habits st)"
  have "find (\<lambda>h. h_id h = l_habitId lg) (habits st) = None"
    using a by (force simp: find_None_iff image_iff)
  then show ?thesis by (simp add: habitLogPoints_def)
qed

lemma questPoints_dangling:
  "aq_libraryId aq \<notin> q_id ` set (questLibrary st) \<Longrightarrow> questPoints env st d aq = 0"
proof -
  assume a: "aq_libraryId aq \<notin> q_id ` set (questLibrary st)"
  have "find (\<lambda>q. q_id q = aq_libraryId aq) (questLibrary st) = None"
    using a by (force simp: find_None_iff image_iff)
  then show ?thesis by (simp add: questPoints_def split: option.splits)
qed

lemma computeDayTotals_drop_habitLog:
  assumes "habitLogPoints env st d lg = 0"
  shows "computeDayTotals env (st\<lparr>habitLogs := ls @ lg # ls'\<rparr>) d
           = computeDayTotals env (st\<lparr>habitLogs := ls @ ls'\<rparr>) d"
proof (rule computeDayTotals_eqI)
  show "settings (st\<lparr>habitLogs := ls @ lg # ls'\<rparr>) = settings (st\<lparr>habitLogs := ls @ ls'\<rparr>)"
    by simp
  have h: "habitLogPoints env (st\<lparr>habitLogs := ls @ lg # ls'\<rparr>) d = habitLogPoints env st d"
          "habitLogPoints env (st\<lparr>habitLogs := ls @ ls'\<rparr>) d = habitLogPoints env st d"
    by (rule habitLogPoints_cong, simp)+
  have q: "questPoints env (st\<lparr>habitLogs := ls @ lg # ls'\<rparr>) d = questPoints env st d"
          "questPoints env (st\<lparr>habitLogs := ls @ ls'\<rparr>) d = questPoints env st d"
    by (rule questPoints_cong, simp)+
  show "totalPoints (computeDayTotals env (st\<lparr>habitLogs := ls @ lg # ls'\<rparr>) d)
          = totalPoints (computeDayTotals env (st\<lparr>habitLogs := ls @ ls'\<rparr>) d)"
    using assms by (simp add: totalPoints_computeDayTotals h q)
qed

lemma computeDayTotals_drop_quest:
  assumes "questPoints env st d aq = 0"
  shows "computeDayTotals env (st\<lparr>assignedQuests := qs @ aq # qs'\<rparr>) d
           = computeDayTotals env (st\<lparr>assignedQuests := qs @ qs'\<rparr>) d"
proof (rule computeDayTotals_eqI)
  show "settings (st\<lparr>assignedQuests := qs @ aq # qs'\<rparr>) = settings (st\<lparr>assignedQuests := qs @ qs'\<rparr>)"
    by simp
  have h: "habitLogPoints env (st\<lparr>assignedQuests := qs @ aq # qs'\<rparr>) d = habitLogPoints env st d"
          "habitLogPoints env (st\<lparr>assignedQuests := qs @ qs'\<rparr>) d = habitLogPoints env st d"
    by (rule habitLogPoints_cong, simp)+
  have q: "questPoints env (st\<lparr>assignedQuests := qs @ aq # qs'\<rparr>) d = questPoints env st d"
          "questPoints env (st\<lparr>assignedQuests := qs @ qs'\<rparr>) d = questPoints env st d"
    by (rule questPoints_cong, simp)+
  show "totalPoints (computeDayTotals env (st\<lparr>assignedQuests := qs @ aq # qs'\<rparr>) d)
          = totalPoints (computeDayTotals env (st\<lparr>assignedQuests := qs @ qs'\<rparr>) d)"
    using assms by (simp add: totalPoints_computeDayTotals h q)
qed

text \<open>
  C8. \<open>computeDayTotals\<close> has no failing path. A habit log whose \<open>habitId\<close> is the id of no
  habit adds 0, and the summary is the same with the log in the collection as without it;
  a completed assigned quest whose \<open>libraryId\<close> is the id of no library entry adds 0
  likewise. For every state the result carries the date asked for, and its \<open>goalMet\<close> is
  the comparison of its total with the daily goal.
\<close>

theorem dangling_references_skipped:
  "(l_habitId lg \<notin> h_id ` set (habits st) \<longrightarrow>
      habitLogPoints env st d lg = 0 \<and>
      computeDayTotals env (st\<lparr>habitLogs := ls @ lg # ls'\<rparr>) d
        = computeDayTotals env (st\<lparr>habitLogs := ls @ ls'\<rparr>) d) \<and>
   (aq_libraryId aq \<notin> q_id ` set (questLibrary st) \<longrightarrow>
      questPoints env st d aq = 0 \<and>
      computeDayTotals env (st\<lparr>assignedQuests := qs @ aq # qs'\<rparr>) d
        = computeDayTotals env (st\<lparr>assignedQuests := qs @ qs'\<rparr>) d) \<and>
   date (computeDayTotals env st d) = d \<and>
   goalMet (computeDayTotals env st d)
     = (orElse (dailyGoal (settings st)) 0 \<le> totalPoints (computeDayTotals env st d))"
proof (intro conjI impI)
  assume a: "l_habitId lg \<notin> h_id ` set (habits st)"
  then show z: "habitLogPoints env st d lg = 0"
    by (rule habitLogPoints_dangling)
  then show "computeDayTotals env (st\<lparr>habitLogs := ls @ lg # ls'\<rparr>) d
        = computeDayTotals env (st\<lparr>habitLogs := ls @ ls'\<rparr>) d"
    by (rule computeDayTotals_drop_habitLog)
next
  assume a: "aq_libraryId aq \<notin> q_id ` set (questLibrary st)"
  then show z: "questPoints env st d aq = 0"
    by (rule questPoints_dangling)
  then show "computeDayTotals env (st\<lparr>assignedQuests := qs @ aq # qs'\<rparr>) d
        = computeDayTotals env (st\<lparr>assignedQuests := qs @ qs'\<rparr>) d"
    by (rule computeDayTotals_drop_quest)
next
  show "date (computeDayTotals env st d) = d"
    by (rule date_computeDayTotals)
  show "goalMet (computeDayTotals env st d)
     = (orElse (dailyGoal (settings st)) 0 \<le> totalPoints (computeDayTotals env st d))"
    by (rule goalMet_computeDayTotals)
qed

theorem dangling_references_skipped_witness:
  "l_habitId exDanglingLog \<notin> h_id ` set (habits exState) \<and>
   aq_libraryId exDanglingQuest \<notin> q_id ` set (questLibrary exState) \<and>
   habitLogPoints exEnv exState exDay exDanglingLog = 0 \<and>
   computeDayTotals exEnv (exState\<lparr>habitLogs := [] @ exDanglingLog # []\<rparr>) exDay
     = computeDayTotals exEnv (exState\<lparr>habitLogs := [] @ []\<rparr>) exDay \<and>
   questPoints exEnv exState exDay exDanglingQuest = 0 \<and>
   computeDayTotals exEnv (exState\<lparr>assignedQuests := [] @ exDanglingQuest # []\<rparr>) exDay
     = computeDayTotals exEnv (exState\<lparr>assignedQuests := [] @ []\<rparr>) exDay"
proof -
  have a: "l_habitId exDanglingLog \<notin> h_id ` set (habits exState)"
    by (simp add: exDanglingLog_def exState_def exHabit_def)
  have b: "aq_libraryId exDanglingQuest \<notin> q_id ` set (questLibrary exState)"
    by (simp add: exDanglingQuest_def exState_def exLibrary_def exQ_def)
  from a b dangling_references_skipped [where lg = exDanglingLog and st = exState
      and aq = exDanglingQuest and env = exEnv and d = exDay and ls = "[]" and ls' = "[]"
      and qs = "[]" and qs' = "[]"]
  show ?thesis by blast
qed


subsection \<open>The summary cache\<close>

lemma findIndex_None: "findIndex P xs = None \<longleftrightarrow> (\<forall>x\<in>set xs. \<not> P x)"
  by (induction xs) auto

lemma findIndex_Some:
  "findIndex P xs = Some i \<Longrightarrow> i < length xs \<and> P (xs ! i) \<and> find P xs = Some (xs ! i)"
  by (induction xs arbitrary: i) (auto split: if_splits)

lemma find_update_first:
  "findIndex P xs = Some i \<Longrightarrow> P v \<Longrightarrow> find P (xs[i := v]) = Some v"
  by (induction xs arbitrary: i) (auto split: if_splits)

lemma find_update_other:
  "i < length xs \<Longrightarrow> \<not> Q (xs ! i) \<Longrightarrow> \<not> Q v \<Longrightarrow> find Q (xs[i := v]) = find Q xs"
  by (induction xs arbitrary: i) (auto simp: nth_Cons split: nat.splits)

lemma find_append_first:
  "\<forall>x\<in>set xs. \<not> P x \<Longrightarrow> P v \<Longrightarrow> find P (xs @ [v]) = Some v"
  by (induction xs) auto

lemma find_append_other:
  "\<not> Q v \<Longrightarrow> find Q (xs @ [v]) = find Q xs"
  by (induction xs) auto

lemma upsert_fst: "fst (upsertDaySummary env d st) = computeDayTotals env st d"
  by (simp add: upsertDaySummary_def Let_def split: option.splits)

lemma upsert_frame:
  "snd (upsertDaySummary env d st)
     = st\<lparr>daySummaries := daySummaries (snd (upsertDaySummary env d st))\<rparr>"
  by (simp add: upsertDaySummary_def Let_def split: option.splits)

lemma upsert_find_same:
  "find (\<lambda>x. date x = d) (daySummaries (snd (upsertDaySummary env d st)))
     = Some (computeDayTotals env st d)"
  by (auto simp: upsertDaySummary_def Let_def date_computeDayTotals findIndex_None
      find_update_first find_append_first split: option.splits)

lemma upsert_find_other:
  assumes "d' \<noteq> d"
  shows "find (\<lambda>x. date x = d') (daySummaries (snd (upsertDaySummary env d st)))
     = find (\<lambda>x. date x = d') (daySummaries st)"
proof (cases "findIndex (\<lambda>x. date x = d) (daySummaries st)")
  case None
  then show ?thesis
    using assms by (simp add: upsertDaySummary_def Let_def find_append_other date_computeDayTotals)
next
  case (Some i)
  from findIndex_Some [OF Some] have "i < length (daySummaries st)" "date (daySummaries st ! i) = d"
    by simp_all
  then show ?thesis
    using assms Some
    by (simp add: upsertDaySummary_def Let_def find_update_other date_computeDayTotals)
qed

lemma upsert_distinct:
  assumes "distinct (map date (daySummaries st))"
  shows "distinct (map date (daySummaries (snd (upsertDaySummary env d st))))"
proof (cases "findIndex (\<lambda>x. date x = d) (daySummaries st)")
  case None
  then have "d \<notin> date ` set (daySummaries st)"
    by (auto simp: findIndex_None)
  then show ?thesis
    using assms None by (simp add: upsertDaySummary_def Let_def date_computeDayTotals)
next
  case (Some i)
  from findIndex_Some [OF Some] have i: "i < length (daySummaries st)" "date (daySummaries st ! i) = d"
    by simp_all
  have "map date ((daySummaries st)[i := computeDayTotals env st d]) = map date (daySummaries st)"
    using i by (simp add: map_update date_computeDayTotals list_update_same_conv)
  then show ?thesis
    using assms Some by (simp add: upsertDaySummary_def Let_def)
qed

text \<open>
  C10. \<open>upsertDaySummary d\<close> returns \<open>computeDayTotals d\<close>; afterwards the cached summary
  found for \<open>d\<close> is exactly that value, the summary found for any other date is the one
  found before, a collection with at most one entry per date still has at most one entry
  per date, and no other part of the state has changed.
\<close>

theorem upsertDaySummary_frame:
  "fst (upsertDaySummary env d st) = computeDayTotals env st d \<and>
   find (\<lambda>x. date x = d) (daySummaries (snd (upsertDaySummary env d st)))
     = Some (computeDayTotals env st d) \<and>
   (d' \<noteq> d \<longrightarrow>
      find (\<lambda>x. date x = d') (daySummaries (snd (upsertDaySummary env d st)))
        = find (\<lambda>x. date x = d') (daySummaries st)) \<and>
   (distinct (map date (daySummaries st)) \<longrightarrow>
      distinct (map date (daySummaries (snd (upsertDaySummary env d st))))) \<and>
   snd (upsertDaySummary env d st)
     = st\<lparr>daySummaries := daySummaries (snd (upsertDaySummary env d st))\<rparr>"
proof (intro conjI impI)
  show "fst (upsertDaySummary env d st) = computeDayTotals env st d"
    by (rule upsert_fst)
  show "find (\<lambda>x. date x = d) (daySummaries (snd (upsertDaySummary env d st)))
     = Some (computeDayTotals env st d)"
    by (rule upsert_find_same)
  show "snd (upsertDaySummary env d st)
     = st\<lparr>daySummaries := daySummaries (snd (upsertDaySummary env d st))\<rparr>"
    by (rule upsert_frame)
next
  assume "d' \<noteq> d"
  then show "find (\<lambda>x. date x = d') (daySummaries (snd (upsertDaySummary env d st)))
        = find (\<lambda>x. date x = d') (daySummaries st)"
    by (rule upsert_find_other)
next
  assume "distinct (map date (daySummaries st))"
  then show "distinct (map date (daySummaries (snd (upsertDaySummary env d st))))"
    by (rule upsert_distinct)
qed

theorem upsertDaySummary_frame_witness:
  "YMD 2024 1 14 \<noteq> exDay \<and>
   distinct (map date (daySummaries (exState\<lparr>daySummaries := exSummaries\<rparr>))) \<and>
   find (\<lambda>x. date x = exDay)
      (daySummaries (snd (upsertDaySummary exEnv exDay (exState\<lparr>daySummaries := exSummaries\<rparr>))))
     = Some (computeDayTotals exEnv (exState\<lparr>daySummaries := exSummaries\<rparr>) exDay) \<and>
   find (\<lambda>x. date x = YMD 2024 1 14)
      (daySummaries (snd (upsertDaySummary exEnv exDay (exState\<lparr>daySummaries := exSummaries\<rparr>))))
     = Some \<lparr>date = YMD 2024 1 14, totalPoints = 70, goalMet = True\<rparr> \<and>
   distinct (map date
      (daySummaries (snd (upsertDaySummary exEnv exDay (exState\<lparr>daySummaries := exSummaries\<rparr>)))))"
proof -
  have a: "YMD 2024 1 14 \<noteq> exDay"
    by (simp add: exDay_def)
  have b: "distinct (map date (daySummaries (exState\<lparr>daySummaries := exSummaries\<rparr>)))"
    by (simp add: exSummaries_def)
  have c: "find (\<lambda>x. date x = YMD 2024 1 14) (daySummaries (exState\<lparr>daySummaries := exSummaries\<rparr>))
     = Some \<lparr>date = YMD 2024 1 14, totalPoints = 70, goalMet = True\<rparr>"
    by (simp add: exSummaries_def)
  from a b c upsertDaySummary_frame [where d = exDay and d' = "YMD 2024 1 14" and env = exEnv
      and st = "exState\<lparr>daySummaries := exSummaries\<rparr>"]
  show ?thesis by simp
qed

subsection \<open>Rollover\<close>

lemma upsert_snd_fields:
  "meta (snd (upsertDaySummary env d st)) = meta st"
  "settings (snd (upsertDaySummary env d st)) = settings st"
  "habits (snd (upsertDaySummary env d st)) = habits st"
  "habitLogs (snd (upsertDaySummary env d st)) = habitLogs st"
  "assignedQuests (snd (upsertDaySummary env d st)) = assignedQuests st"
  "questLibrary (snd (upsertDaySummary env d st)) = questLibrary st"
  "randomCalls (snd (upsertDaySummary env d st)) = randomCalls st"
  by (simp_all add: upsertDaySummary_def Let_def split: option.splits)

lemma assignDaily_fields:
  "meta (assignDailyQuests env d st) = meta st"
  "settings (assignDailyQuests env d st) = settings st"
  "questLibrary (assignDailyQuests env d st) = questLibrary st"
  by (simp_all add: assignDailyQuests_def Let_def split: prod.splits)

lemma assignWeekly_fields:
  "meta (assignWeeklyQuests env d st) = meta st"
  "settings (assignWeeklyQuests env d st) = settings st"
  "questLibrary (assignWeeklyQuests env d st) = questLibrary st"
  by (simp_all add: assignWeeklyQuests_def Let_def split: prod.splits)

lemma ensureRollover_lastRun:
  "lastAssignmentRun (meta (ensureRollover env today st)) = Some today"
  by (simp add: ensureRollover_def Let_def upsert_snd_fields assignDaily_fields
      assignWeekly_fields split: option.splits prod.splits)

lemma ensureRollover_sameDay:
  "lastAssignmentRun (meta st) = Some today \<Longrightarrow>
   ensureRollover env today st = snd (upsertDaySummary env today st)"
  by (simp add: ensureRollover_def)

text \<open>
  Two calls that run one after the other on the same day: the first leaves
  \<open>lastAssignmentRun = today\<close>, so the second is exactly the refresh of today's summary;
  it creates no assigned quest, draws no random number and leaves the lifecycle record as
  the first call left it.
\<close>

lemma ensureRollover_twice_in_sequence:
  "lastAssignmentRun (meta (ensureRollover env today st)) = Some today \<and>
   ensureRollover env today (ensureRollover env today st)
     = snd (upsertDaySummary env today (ensureRollover env today st)) \<and>
   meta (ensureRollover env today (ensureRollover env today st))
     = meta (ensureRollover env today st) \<and>
   assignedQuests (ensureRollover env today (ensureRollover env today st))
     = assignedQuests (ensureRollover env today st) \<and>
   randomCalls (ensureRollover env today (ensureRollover env today st))
     = randomCalls (ensureRollover env today st)"
proof -
  have same: "lastAssignmentRun (meta (ensureRollover env today st)) = Some today"
    by (rule ensureRollover_lastRun)
  have second: "ensureRollover env today (ensureRollover env today st)
     = snd (upsertDaySummary env today (ensureRollover env today st))"
    using same by (rule ensureRollover_sameDay)
  show ?thesis
    by (simp add: same second upsert_snd_fields)
qed

lemma updateStreak_inv:
  "0 \<le> streak m \<Longrightarrow> streak m \<le> bestStreak m \<Longrightarrow>
   0 \<le> streak (updateStreak env st prev s m) \<and>
   streak (updateStreak env st prev s m) \<le> bestStreak (updateStreak env st prev s m)"
  by (simp add: updateStreak_def Let_def orElse_def)

lemma scheduledLoop_cong:
  "habitLogs st = habitLogs st' \<Longrightarrow> scheduledLoop st d hs = scheduledLoop st' d hs"
  by (induction hs) (simp_all split: option.splits)

lemma allScheduledHabitsComplete_cong:
  "habits st = habits st' \<Longrightarrow> habitLogs st = habitLogs st' \<Longrightarrow>
   allScheduledHabitsComplete env st d = allScheduledHabitsComplete env st' d"
  by (simp add: allScheduledHabitsComplete_def Let_def scheduledLoop_cong [of st st'])

lemma updateStreak_cong:
  "habits st = habits st' \<Longrightarrow> habitLogs st = habitLogs st' \<Longrightarrow>
   updateStreak env st prev s m = updateStreak env st' prev s m"
  by (simp add: updateStreak_def allScheduledHabitsComplete_cong [of st st'])

lemma updateStreak_upsert:
  "updateStreak env (snd (upsertDaySummary env d st)) prev s m = updateStreak env st prev s m"
  by (rule updateStreak_cong) (simp_all add: upsert_snd_fields)

lemma ensureRollover_meta_first:
  "lastAssignmentRun (meta st) = None \<Longrightarrow>
   meta (ensureRollover env today st)
     = (meta st)\<lparr>lastAssignmentRun := Some today,
                  lastWeekStart := Some (weekOf env today (weekStart (settings st)))\<rparr>"
  by (simp add: ensureRollover_def Let_def upsert_snd_fields assignDaily_fields
      assignWeekly_fields)

lemma ensureRollover_meta_changed:
  assumes "lastAssignmentRun (meta st) = Some prev" and "prev \<noteq> today"
  shows "\<exists>w. meta (ensureRollover env today st)
     = (updateStreak env st prev (computeDayTotals env st prev) (meta st))
         \<lparr>lastWeekStart := w, lastAssignmentRun := Some today\<rparr>"
proof -
  let ?m1 = "updateStreak env st prev (computeDayTotals env st prev) (meta st)"
  have "meta (ensureRollover env today st) = ?m1\<lparr>lastAssignmentRun := Some today\<rparr> \<or>
        meta (ensureRollover env today st)
          = ?m1\<lparr>lastWeekStart := Some (weekOf env today (weekStart (settings st))),
                 lastAssignmentRun := Some today\<rparr>"
    using assms
    by (simp add: ensureRollover_def Let_def case_prod_beta upsert_fst upsert_snd_fields
        assignDaily_fields assignWeekly_fields updateStreak_upsert)
  then show ?thesis
  proof
    assume a: "meta (ensureRollover env today st) = ?m1\<lparr>lastAssignmentRun := Some today\<rparr>"
    have "?m1\<lparr>lastAssignmentRun := Some today\<rparr>
        = ?m1\<lparr>lastWeekStart := lastWeekStart ?m1, lastAssignmentRun := Some today\<rparr>"
      by simp
    with a show ?thesis by metis
  next
    assume "meta (ensureRollover env today st)
          = ?m1\<lparr>lastWeekStart := Some (weekOf env today (weekStart (settings st))),
                 lastAssignmentRun := Some today\<rparr>"
    then show ?thesis by metis
  qed
qed

lemma ensureRollover_meta_same:
  "lastAssignmentRun (meta st) = Some today \<Longrightarrow> meta (ensureRollover env today st) = meta st"
  by (simp add: ensureRollover_def upsert_snd_fields)

lemma ensureRollover_inv:
  assumes "0 \<le> streak (meta st)" and "streak (meta st) \<le> bestStreak (meta st)"
  shows "0 \<le> streak (meta (ensureRollover env today st)) \<and>
         streak (meta (ensureRollover env today st)) \<le> bestStreak (meta (ensureRollover env today st))"
proof (cases "lastAssignmentRun (meta st)")
  case None
  then show ?thesis using assms by (simp add: ensureRollover_meta_first)
next
  case (Some prev)
  show ?thesis
  proof (cases "prev = today")
    case True
    then show ?thesis using Some assms by (simp add: ensureRollover_meta_same)
  next
    case False
    from ensureRollover_meta_changed [OF Some False, of env]
    obtain w where "meta (ensureRollover env today st)
     = (updateStreak env st prev (computeDayTotals env st prev) (meta st))
         \<lparr>lastWeekStart := w, lastAssignmentRun := Some today\<rparr>" ..
    then show ?thesis
      using updateStreak_inv [OF assms, of env st prev "computeDayTotals env st prev"] by simp
  qed
qed

lemma reachable_inv:
  "reachable env st \<Longrightarrow> 0 \<le> streak (meta st) \<and> streak (meta st) \<le> bestStreak (meta st)"
proof (induction rule: reachable.induct)
  case (boot st)
  then show ?case by (simp add: DefaultMeta_def)
next
  case (rollover st today)
  then show ?case using ensureRollover_inv [of st env today] by blast
next
  case (other st st')
  then show ?case by simp
qed

text \<open>
  C9. \<open>streak \<le> bestStreak\<close> holds for the default lifecycle record and in every state
  reached from it, and therefore after every further run of \<open>ensureRollover\<close>, whichever
  of its branches the run takes.
\<close>

theorem streak_le_bestStreak:
  "streak DefaultMeta \<le> bestStreak DefaultMeta \<and>
   (reachable env st \<longrightarrow>
      streak (meta st) \<le> bestStreak (meta st) \<and>
      streak (meta (ensureRollover env today st)) \<le> bestStreak (meta (ensureRollover env today st)))"
proof (intro conjI impI)
  show "streak DefaultMeta \<le> bestStreak DefaultMeta"
    by (simp add: DefaultMeta_def)
next
  assume r: "reachable env st"
  then show "streak (meta st) \<le> bestStreak (meta st)"
    using reachable_inv by blast
  from r have "reachable env (ensureRollover env today st)"
    by (rule reachable.rollover)
  then show "streak (meta (ensureRollover env today st)) \<le> bestStreak (meta (ensureRollover env today st))"
    using reachable_inv by blast
qed


theorem streak_le_bestStreak_witness:
  "reachable exEnv exState \<and>
   streak (meta exState) \<le> bestStreak (meta exState) \<and>
   streak (meta (ensureRollover exEnv exDay exState))
     \<le> bestStreak (meta (ensureRollover exEnv exDay exState))"
proof -
  have r: "reachable exEnv exState"
    by (rule reachable.boot) (simp add: exState_def)
  from r streak_le_bestStreak [of exEnv exState exDay] show ?thesis by blast
qed



subsection \<open>The streak evaluator\<close>

lemma scheduledLoop_iff:
  "scheduledLoop st d hs \<longleftrightarrow>
     (\<forall>h\<in>set hs.
        case find (\<lambda>l. l_habitId l = h_id h \<and> l_date l = d) (habitLogs st) of
          None \<Rightarrow> False
        | Some lg \<Rightarrow> if h_type h = Binary then 1 \<le> l_count lg
                     else orElse (h_target h) 1 \<le> l_count lg)"
  by (induction hs) (auto simp: orElse_def split: option.splits)

lemma allScheduledHabitsComplete_iff:
  "allScheduledHabitsComplete env st d \<longleftrightarrow>
     (\<forall>h\<in>set (habits st). getDay env d \<in> set (h_schedule h) \<longrightarrow>
        (case find (\<lambda>l. l_habitId l = h_id h \<and> l_date l = d) (habitLogs st) of
          None \<Rightarrow> False
        | Some lg \<Rightarrow> if h_type h = Binary then 1 \<le> l_count lg
                     else orElse (h_target h) 1 \<le> l_count lg))"
proof (cases "filter (\<lambda>h. getDay env d \<in> set (h_schedule h)) (habits st) = []")
  case True
  then have "\<forall>h\<in>set (habits st). getDay env d \<notin> set (h_schedule h)"
    by (simp add: filter_empty_conv)
  then show ?thesis
    using True by (simp add: allScheduledHabitsComplete_def Let_def)
next
  case False
  then show ?thesis
    by (auto simp: allScheduledHabitsComplete_def Let_def scheduledLoop_iff)
qed

lemma find_pair_unique:
  assumes "distinct (map (\<lambda>l. (f l, g l)) xs)"
  shows "(case find (\<lambda>l. f l = a \<and> g l = b) xs of None \<Rightarrow> False | Some y \<Rightarrow> P y)
           \<longleftrightarrow> (\<exists>y\<in>set xs. f y = a \<and> g y = b \<and> P y)"
  using assms by (induction xs) (auto simp: image_iff)

lemma count_zero_incomplete:
  assumes "h \<in> set (habits st)" and "getDay env d \<in> set (h_schedule h)"
    and "find (\<lambda>l. l_habitId l = h_id h \<and> l_date l = d) (habitLogs st) = Some lg"
    and "l_count lg = 0" and "h_type h = Binary \<or> 0 \<le> h_target h"
  shows "\<not> allScheduledHabitsComplete env st d"
proof
  assume "allScheduledHabitsComplete env st d"
  then have "if h_type h = Binary then 1 \<le> l_count lg else orElse (h_target h) 1 \<le> l_count lg"
    using assms(1,2,3) by (auto simp: allScheduledHabitsComplete_iff)
  then show False
    using assms(4,5) by (auto simp: orElse_def split: if_splits)
qed

lemma ensureRollover_streak:
  assumes "lastAssignmentRun (meta st) = Some prev" and "prev \<noteq> today"
  shows "(if goalMet (computeDayTotals env st prev) \<and> allScheduledHabitsComplete env st prev
          then streak (meta (ensureRollover env today st)) = streak (meta st) + 1 \<and>
               bestStreak (meta (ensureRollover env today st))
                 = max (bestStreak (meta st)) (streak (meta st) + 1)
          else streak (meta (ensureRollover env today st)) = 0 \<and>
               bestStreak (meta (ensureRollover env today st)) = bestStreak (meta st))"
proof -
  from ensureRollover_meta_changed [OF assms, of env]
  obtain w where m: "meta (ensureRollover env today st)
     = (updateStreak env st prev (computeDayTotals env st prev) (meta st))
         \<lparr>lastWeekStart := w, lastAssignmentRun := Some today\<rparr>" ..
  show ?thesis
    by (simp add: m updateStreak_def Let_def orElse_def max_def)
qed


subsection \<open>Partial credit of a counter habit\<close>

lemma habitLogPoints_counter:
  assumes "find (\<lambda>h. h_id h = l_habitId lg) (habits st) = Some habit"
    and "h_type habit = Counter" and "getDay env d \<in> set (h_schedule habit)"
  shows "habitLogPoints env st d lg =
     \<lfloor>numMul
        (numDiv (of_int (clamp (l_count lg) 0 (if h_target habit = 0 then 1 else h_target habit)))
                (of_int (if h_target habit = 0 then 1 else h_target habit)))
        (of_int (h_points habit))\<rfloor>"
  using assms by (simp add: habitLogPoints_def orElse_def)

lemma totalPoints_add_habitLog:
  assumes "l_date lg = d"
  shows "totalPoints (computeDayTotals env (st\<lparr>habitLogs := ls @ lg # ls'\<rparr>) d)
           = totalPoints (computeDayTotals env (st\<lparr>habitLogs := ls @ ls'\<rparr>) d)
             + habitLogPoints env st d lg"
proof -
  have h: "habitLogPoints env (st\<lparr>habitLogs := ls @ lg # ls'\<rparr>) d = habitLogPoints env st d"
          "habitLogPoints env (st\<lparr>habitLogs := ls @ ls'\<rparr>) d = habitLogPoints env st d"
    by (rule habitLogPoints_cong, simp)+
  have q: "questPoints env (st\<lparr>habitLogs := ls @ lg # ls'\<rparr>) d = questPoints env st d"
          "questPoints env (st\<lparr>habitLogs := ls @ ls'\<rparr>) d = questPoints env st d"
    by (rule questPoints_cong, simp)+
  show ?thesis
    using assms by (simp add: totalPoints_computeDayTotals h q)
qed

subsection \<open>Sampling and assignment\<close>

lemma random_index:
  assumes "validRandom env"
  shows "nat \<lfloor>mathRandom env k * of_nat (Suc n)\<rfloor> \<le> n"
proof -
  from assms have r: "0 \<le> mathRandom env k" "mathRandom env k < 1"
    by (simp_all add: validRandom_def)
  have "mathRandom env k * of_nat (Suc n) < 1 * of_nat (Suc n)"
    using r(2) by (intro mult_strict_right_mono) simp_all
  then have "mathRandom env k * of_nat (Suc n) < of_int (int (Suc n))"
    by simp
  then have "\<lfloor>mathRandom env k * of_nat (Suc n)\<rfloor> < int (Suc n)"
    by (simp only: floor_less_iff)
  then show ?thesis
    by linarith
qed

lemma shuffleLoop_length: "length (fst (shuffleLoop env a i k)) = length a"
  by (induction i arbitrary: a k) (simp_all add: Let_def)

lemma shuffleLoop_mset:
  assumes "validRandom env"
  shows "i < length a \<or> i = 0 \<Longrightarrow> mset (fst (shuffleLoop env a i k)) = mset a"
proof (induction i arbitrary: a k)
  case 0
  show ?case by simp
next
  case (Suc m)
  let ?j = "nat \<lfloor>mathRandom env k * of_nat (Suc m + 1)\<rfloor>"
  from Suc.prems have i: "Suc m < length a"
    by simp
  have j: "?j < length a"
    using random_index [OF assms, of k "Suc m"] i by simp
  have swap: "mset (a[Suc m := a ! ?j, ?j := a ! Suc m]) = mset a"
    using j i by (rule mset_swap)
  have "mset (fst (shuffleLoop env (a[Suc m := a ! ?j, ?j := a ! Suc m]) m (Suc k)))
          = mset (a[Suc m := a ! ?j, ?j := a ! Suc m])"
    using i by (intro Suc.IH) simp
  with swap show ?case
    by (simp add: Let_def)
qed

lemma slice0_length_le: "length (slice0 a n) \<le> length a"
  by (simp add: slice0_def Let_def)

lemma slice0_length: "0 \<le> n \<Longrightarrow> int (length (slice0 a n)) = min n (int (length a))"
  by (simp add: slice0_def Let_def)

lemma slice0_take: "\<exists>m. slice0 a n = take m a"
  by (auto simp: slice0_def Let_def)

lemma mset_take_subseteq: "mset (take m xs) \<subseteq># mset xs"
proof -
  have "mset xs = mset (take m xs) + mset (drop m xs)"
    by (metis append_take_drop_id mset_append)
  then show ?thesis
    by (metis mset_subset_eq_add_left)
qed

lemma randomSample_eq:
  "fst (randomSample env arr n k) = slice0 (fst (shuffleLoop env arr (length arr - 1) k)) n"
  by (simp add: randomSample_def case_prod_beta)

lemma randomSample_length_le: "length (fst (randomSample env arr n k)) \<le> length arr"
  using slice0_length_le [of "fst (shuffleLoop env arr (length arr - 1) k)" n]
  by (simp only: randomSample_eq shuffleLoop_length)

lemma randomSample_length:
  "0 \<le> n \<Longrightarrow> int (length (fst (randomSample env arr n k))) = min n (int (length arr))"
  by (simp only: randomSample_eq slice0_length shuffleLoop_length)

lemma shuffled_mset:
  assumes "validRandom env"
  shows "mset (fst (shuffleLoop env arr (length arr - 1) k)) = mset arr"
  using assms by (rule shuffleLoop_mset) (cases arr, simp_all)

lemma randomSample_mset:
  assumes "validRandom env"
  shows "mset (map f (fst (randomSample env arr n k))) \<subseteq># mset (map f arr)"
proof -
  define a where "a = fst (shuffleLoop env arr (length arr - 1) k)"
  have p: "mset a = mset arr"
    unfolding a_def using assms by (rule shuffled_mset)
  obtain m where m: "slice0 a n = take m a"
    using slice0_take by blast
  have "mset (take m a) \<subseteq># mset a"
    by (rule mset_take_subseteq)
  then have "image_mset f (mset (take m a)) \<subseteq># image_mset f (mset a)"
    by (rule image_mset_subseteq_mono)
  then have "mset (map f (slice0 a n)) \<subseteq># mset (map f arr)"
    by (simp add: m p)
  then show ?thesis
    by (simp only: randomSample_eq a_def)
qed

lemma randomSample_distinct:
  assumes "validRandom env" and "distinct (map f arr)"
  shows "distinct (map f (fst (randomSample env arr n k)))"
proof -
  define a where "a = fst (shuffleLoop env arr (length arr - 1) k)"
  have p: "mset a = mset arr"
    unfolding a_def using assms(1) by (rule shuffled_mset)
  then have "mset (map f a) = mset (map f arr)"
    by simp
  from mset_eq_imp_distinct_iff [OF this] assms(2) have d: "distinct (map f a)"
    by blast
  obtain m where m: "slice0 a n = take m a"
    using slice0_take by blast
  have "distinct (take m (map f a))"
    using d by (rule distinct_take)
  then have "distinct (map f (slice0 a n))"
    by (simp add: m take_map)
  then show ?thesis
    by (simp only: randomSample_eq a_def)
qed

lemma createAssigned_length: "length (fst (createAssigned env mk qs k)) = length qs"
  by (induction qs arbitrary: k) (simp_all add: Let_def case_prod_beta)

lemma createAssigned_map:
  "(\<And>i q. g (mk i q) = f q) \<Longrightarrow> map g (fst (createAssigned env mk qs k)) = map f qs"
  by (induction qs arbitrary: k) (simp_all add: Let_def case_prod_beta)

lemma createAssigned_all:
  "(\<And>i q. P (mk i q)) \<Longrightarrow> \<forall>c\<in>set (fst (createAssigned env mk qs k)). P c"
  by (induction qs arbitrary: k) (simp_all add: Let_def case_prod_beta)



lemma assignDaily_assigned:
  "assignedQuests (assignDailyQuests env d st) =
     assignedQuests st @
     fst (createAssigned env
       (\<lambda>i q. \<lparr>aq_id = i, aq_libraryId = q_id q, aq_type = Daily, aq_date = Some d,
                aq_weekOf = None, aq_multiplier = 1, aq_completedAt = None\<rparr>)
       (fst (randomSample env (filter q_active (questLibrary st))
              (min (orElse (dailyQuestCount (settings st)) 0)
                   (int (length (filter q_active (questLibrary st)))))
              (randomCalls st)))
       (snd (randomSample env (filter q_active (questLibrary st))
              (min (orElse (dailyQuestCount (settings st)) 0)
                   (int (length (filter q_active (questLibrary st)))))
              (randomCalls st))))"
  by (simp add: assignDailyQuests_def Let_def case_prod_beta)

lemma assignWeekly_assigned:
  "assignedQuests (assignWeeklyQuests env ws st) =
     assignedQuests st @
     fst (createAssigned env
       (\<lambda>i q. \<lparr>aq_id = i, aq_libraryId = q_id q, aq_type = Weekly, aq_date = None,
                aq_weekOf = Some ws, aq_multiplier = orElse (weeklyFactor (settings st)) 1,
                aq_completedAt = None\<rparr>)
       (fst (randomSample env (filter q_active (questLibrary st))
              (min (fst (weeklyCount env st))
                   (int (length (filter q_active (questLibrary st)))))
              (snd (weeklyCount env st))))
       (snd (randomSample env (filter q_active (questLibrary st))
              (min (fst (weeklyCount env st))
                   (int (length (filter q_active (questLibrary st)))))
              (snd (weeklyCount env st)))))"
  by (simp add: assignWeeklyQuests_def Let_def case_prod_beta)

lemma created_spec:
  assumes v: "validRandom env"
    and new: "new = old @ fst (createAssigned env mk (fst (randomSample env pool (min n (int (length pool))) k)) k')"
    and lib: "\<And>i q. aq_libraryId (mk i q) = q_id q"
  shows "take (length old) new = old \<and>
         mset (map aq_libraryId (drop (length old) new)) \<subseteq># mset (map q_id pool) \<and>
         (distinct (map q_id pool) \<longrightarrow> distinct (map aq_libraryId (drop (length old) new))) \<and>
         length (drop (length old) new) \<le> length pool \<and>
         (0 \<le> n \<longrightarrow> int (length (drop (length old) new)) = min n (int (length pool)))"
proof -
  let ?chosen = "fst (randomSample env pool (min n (int (length pool))) k)"
  have d: "drop (length old) new = fst (createAssigned env mk ?chosen k')"
    by (simp add: new)
  have ids: "map aq_libraryId (drop (length old) new) = map q_id ?chosen"
    unfolding d using lib by (rule createAssigned_map)
  have len: "length (drop (length old) new) = length ?chosen"
    unfolding d by (rule createAssigned_length)
  have 1: "take (length old) new = old"
    by (simp add: new)
  have 2: "mset (map aq_libraryId (drop (length old) new)) \<subseteq># mset (map q_id pool)"
    unfolding ids using v by (rule randomSample_mset)
  have 3: "distinct (map q_id pool) \<longrightarrow> distinct (map aq_libraryId (drop (length old) new))"
    unfolding ids using v randomSample_distinct by blast
  have 4: "length (drop (length old) new) \<le> length pool"
    unfolding len by (rule randomSample_length_le)
  have 5: "0 \<le> n \<longrightarrow> int (length (drop (length old) new)) = min n (int (length pool))"
  proof
    assume "0 \<le> n"
    then have "0 \<le> min n (int (length pool))"
      by simp
    then have "int (length ?chosen) = min (min n (int (length pool))) (int (length pool))"
      by (rule randomSample_length)
    then show "int (length (drop (length old) new)) = min n (int (length pool))"
      unfolding len by simp
  qed
  from 1 2 3 4 5 show ?thesis by blast
qed

lemma validRandom_exEnv: "validRandom exEnv"
  by (simp add: validRandom_def exEnv_def)

lemma exPool:
  "map q_id (filter q_active (questLibrary exState))
     = [''q01'', ''q02'', ''q04'', ''q05'', ''q06'', ''q07'', ''q08'', ''q09'', ''q10'', ''q11'']"
  by (simp add: exState_def exLibrary_def exQ_def)

text \<open>
  C5. For every value of the random source, an assignment call, daily or weekly, with
  active pool \<open>P\<close> and requested count \<open>n\<close>, appends its new assigned quests to the
  collection and leaves the earlier ones in place; the library ids of the new quests
  form a sub-multiset of the ids of \<open>P\<close> (no entry of \<open>P\<close> is taken more often than it
  occurs in \<open>P\<close>), so they are pairwise distinct when the ids of \<open>P\<close> are; they never
  number more than \<open>P\<close> has entries, and for a count \<open>n \<ge> 0\<close> they number exactly
  \<open>min n |P|\<close>, which is 0 when \<open>P\<close> is empty or \<open>n\<close> is 0.
\<close>

theorem assignment_without_replacement:
  assumes "validRandom env"
  shows "(let pool = filter q_active (questLibrary st);
              n = orElse (dailyQuestCount (settings st)) 0;
              old = assignedQuests st;
              new = assignedQuests (assignDailyQuests env d st);
              created = drop (length old) new
          in take (length old) new = old \<and>
             mset (map aq_libraryId created) \<subseteq># mset (map q_id pool) \<and>
             (distinct (map q_id pool) \<longrightarrow> distinct (map aq_libraryId created)) \<and>
             length created \<le> length pool \<and>
             (0 \<le> n \<longrightarrow> int (length created) = min n (int (length pool)))) \<and>
         (let pool = filter q_active (questLibrary st);
              n = fst (weeklyCount env st);
              old = assignedQuests st;
              new = assignedQuests (assignWeeklyQuests env ws st);
              created = drop (length old) new
          in take (length old) new = old \<and>
             mset (map aq_libraryId created) \<subseteq># mset (map q_id pool) \<and>
             (distinct (map q_id pool) \<longrightarrow> distinct (map aq_libraryId created)) \<and>
             length created \<le> length pool \<and>
             (0 \<le> n \<longrightarrow> int (length created) = min n (int (length pool))))"
  unfolding Let_def
proof (rule conjI)
  show "take (length (assignedQuests st)) (assignedQuests (assignDailyQuests env d st)) = assignedQuests st \<and>
    mset (map aq_libraryId (drop (length (assignedQuests st)) (assignedQuests (assignDailyQuests env d st))))
      \<subseteq># mset (map q_id (filter q_active (questLibrary st))) \<and>
    (distinct (map q_id (filter q_active (questLibrary st))) \<longrightarrow>
     distinct (map aq_libraryId (drop (length (assignedQuests st)) (assignedQuests (assignDailyQuests env d st))))) \<and>
    length (drop (length (assignedQuests st)) (assignedQuests (assignDailyQuests env d st)))
      \<le> length (filter q_active (questLibrary st)) \<and>
    (0 \<le> orElse (dailyQuestCount (settings st)) 0 \<longrightarrow>
     int (length (drop (length (assignedQuests st)) (assignedQuests (assignDailyQuests env d st))))
       = min (orElse (dailyQuestCount (settings st)) 0) (int (length (filter q_active (questLibrary st)))))"
    by (rule created_spec [OF assms assignDaily_assigned]) simp
  show "take (length (assignedQuests st)) (assignedQuests (assignWeeklyQuests env ws st)) = assignedQuests st \<and>
    mset (map aq_libraryId (drop (length (assignedQuests st)) (assignedQuests (assignWeeklyQuests env ws st))))
      \<subseteq># mset (map q_id (filter q_active (questLibrary st))) \<and>
    (distinct (map q_id (filter q_active (questLibrary st))) \<longrightarrow>
     distinct (map aq_libraryId (drop (length (assignedQuests st)) (assignedQuests (assignWeeklyQuests env ws st))))) \<and>
    length (drop (length (assignedQuests st)) (assignedQuests (assignWeeklyQuests env ws st)))
      \<le> length (filter q_active (questLibrary st)) \<and>
    (0 \<le> fst (weeklyCount env st) \<longrightarrow>
     int (length (drop (length (assignedQuests st)) (assignedQuests (assignWeeklyQuests env ws st))))
       = min (fst (weeklyCount env st)) (int (length (filter q_active (questLibrary st)))))"
    by (rule created_spec [OF assms assignWeekly_assigned]) simp
qed

theorem assignment_without_replacement_witness:
  "validRandom exEnv \<and>
   distinct (map q_id (filter q_active (questLibrary exState))) \<and>
   length (filter q_active (questLibrary exState)) = 10 \<and>
   orElse (dailyQuestCount (settings exState)) 0 = 3 \<and>
   length (drop (length (assignedQuests exState))
             (assignedQuests (assignDailyQuests exEnv exDay exState))) = 3 \<and>
   distinct (map aq_libraryId (drop (length (assignedQuests exState))
             (assignedQuests (assignDailyQuests exEnv exDay exState)))) \<and>
   fst (weeklyCount exEnv exState) = 3 \<and>
   length (drop (length (assignedQuests exState))
             (assignedQuests (assignWeeklyQuests exEnv exDay exState))) = 3 \<and>
   distinct (map aq_libraryId (drop (length (assignedQuests exState))
             (assignedQuests (assignWeeklyQuests exEnv exDay exState))))"
proof -
  have v: "validRandom exEnv"
    by (rule validRandom_exEnv)
  have p: "distinct (map q_id (filter q_active (questLibrary exState)))"
    by (simp add: exPool)
  have l: "length (filter q_active (questLibrary exState)) = 10"
    using arg_cong [OF exPool, of length] by simp
  have n: "orElse (dailyQuestCount (settings exState)) 0 = 3"
    by (simp add: exState_def DefaultSettings_def orElse_def)
  have w: "fst (weeklyCount exEnv exState) = 3"
    by (simp add: weeklyCount_def exState_def DefaultSettings_def orElse_def)
  from assignment_without_replacement [OF v, of exState exDay exDay] p
  show ?thesis
    by (simp add: Let_def v l n w)
qed

lemma weeklyCount_range:
  assumes "validRandom env" and "weeklyQuestMode (settings st) = Range"
    and "weeklyQuestMin (settings st) \<le> weeklyQuestMax (settings st)"
  shows "max 0 (weeklyQuestMin (settings st)) \<le> fst (weeklyCount env st) \<and>
         fst (weeklyCount env st) \<le> max 0 (weeklyQuestMax (settings st))"
proof -
  let ?r = "mathRandom env (randomCalls st)"
  let ?w = "weeklyQuestMax (settings st) - weeklyQuestMin (settings st) + 1"
  from assms(1) have r: "0 \<le> ?r" "?r < 1"
    by (simp_all add: validRandom_def)
  have w: "0 < ?w"
    using assms(3) by simp
  have "0 \<le> ?r * of_int ?w"
    using r(1) w by simp
  then have lo: "0 \<le> \<lfloor>?r * of_int ?w\<rfloor>"
    by simp
  have "?r * of_int ?w < 1 * of_int ?w"
    using r(2) w by (intro mult_strict_right_mono) simp_all
  then have "?r * of_int ?w < of_int ?w"
    by simp
  then have hi: "\<lfloor>?r * of_int ?w\<rfloor> < ?w"
    by (simp only: floor_less_iff)
  have c: "fst (weeklyCount env st) = max 0 (\<lfloor>?r * of_int ?w\<rfloor> + weeklyQuestMin (settings st))"
    using assms(2) by (simp add: weeklyCount_def Let_def)
  show ?thesis
    unfolding c using lo hi by linarith
qed

text \<open>
  C6. In range mode with \<open>weeklyQuestMin \<le> weeklyQuestMax\<close>, a maximum that is at least
  0 and an active pool of at least \<open>weeklyQuestMax\<close> entries, for every value of the random
  source \<open>assignWeeklyQuests\<close> creates a number of assigned quests between
  \<open>weeklyQuestMin\<close> and \<open>weeklyQuestMax\<close> inclusive; each of them is a weekly quest of the
  given week whose multiplier is \<open>weeklyFactor || 1\<close>, that is the configured weekly
  factor whenever that factor is not 0.
\<close>

theorem weekly_range_count:
  assumes "validRandom env" and "weeklyQuestMode (settings st) = Range"
    and "weeklyQuestMin (settings st) \<le> weeklyQuestMax (settings st)"
    and "weeklyQuestMax (settings st) \<le> int (length (filter q_active (questLibrary st)))"
    and "0 \<le> weeklyQuestMax (settings st)"
  shows "(let created = drop (length (assignedQuests st))
                          (assignedQuests (assignWeeklyQuests env ws st))
          in weeklyQuestMin (settings st) \<le> int (length created) \<and>
             int (length created) \<le> weeklyQuestMax (settings st) \<and>
             (\<forall>c\<in>set created.
                aq_type c = Weekly \<and> aq_weekOf c = Some ws \<and>
                aq_multiplier c = orElse (weeklyFactor (settings st)) 1 \<and>
                (weeklyFactor (settings st) \<noteq> 0 \<longrightarrow>
                   aq_multiplier c = weeklyFactor (settings st))))"
proof -
  let ?pool = "filter q_active (questLibrary st)"
  let ?n = "fst (weeklyCount env st)"
  let ?mk = "\<lambda>i q. \<lparr>aq_id = i, aq_libraryId = q_id q, aq_type = Weekly, aq_date = None,
                aq_weekOf = Some ws, aq_multiplier = orElse (weeklyFactor (settings st)) 1,
                aq_completedAt = None\<rparr>"
  let ?chosen = "fst (randomSample env ?pool (min ?n (int (length ?pool))) (snd (weeklyCount env st)))"
  let ?k = "snd (randomSample env ?pool (min ?n (int (length ?pool))) (snd (weeklyCount env st)))"
  define created where
    "created = drop (length (assignedQuests st)) (assignedQuests (assignWeeklyQuests env ws st))"
  have cr: "created = fst (createAssigned env ?mk ?chosen ?k)"
    unfolding created_def by (simp add: assignWeekly_assigned)
  from weeklyCount_range [OF assms(1,2,3)] assms(5)
  have n: "weeklyQuestMin (settings st) \<le> ?n" "?n \<le> weeklyQuestMax (settings st)" "0 \<le> ?n"
    by simp_all
  have "0 \<le> min ?n (int (length ?pool))"
    using n(3) by simp
  then have "int (length ?chosen) = min (min ?n (int (length ?pool))) (int (length ?pool))"
    by (rule randomSample_length)
  then have "int (length ?chosen) = ?n"
    using n(2) assms(4) by simp
  then have len: "int (length created) = ?n"
    unfolding cr by (simp only: createAssigned_length)
  have each: "\<forall>c\<in>set created.
                aq_type c = Weekly \<and> aq_weekOf c = Some ws \<and>
                aq_multiplier c = orElse (weeklyFactor (settings st)) 1 \<and>
                (weeklyFactor (settings st) \<noteq> 0 \<longrightarrow>
                   aq_multiplier c = weeklyFactor (settings st))"
    unfolding cr by (rule createAssigned_all) (simp add: orElse_def)
  from n(1,2) len each show ?thesis
    unfolding Let_def created_def [symmetric] by (simp add: orElse_def)
qed

theorem weekly_range_count_witness:
  "validRandom exEnv \<and> weeklyQuestMode (settings exRangeState) = Range \<and>
   weeklyQuestMin (settings exRangeState) = 2 \<and> weeklyQuestMax (settings exRangeState) = 4 \<and>
   length (filter q_active (questLibrary exRangeState)) = 10 \<and>
   weeklyFactor (settings exRangeState) = 3 / 2 \<and>
   2 \<le> length (drop (length (assignedQuests exRangeState))
                 (assignedQuests (assignWeeklyQuests exEnv exDay exRangeState))) \<and>
   length (drop (length (assignedQuests exRangeState))
            (assignedQuests (assignWeeklyQuests exEnv exDay exRangeState))) \<le> 4 \<and>
   list_all (\<lambda>c. aq_multiplier c = 3 / 2)
     (drop (length (assignedQuests exRangeState))
        (assignedQuests (assignWeeklyQuests exEnv exDay exRangeState)))"
proof -
  have v: "validRandom exEnv"
    by (rule validRandom_exEnv)
  have s: "weeklyQuestMode (settings exRangeState) = Range"
      "weeklyQuestMin (settings exRangeState) = 2" "weeklyQuestMax (settings exRangeState) = 4"
      "weeklyFactor (settings exRangeState) = 3 / 2"
    by (simp_all add: exRangeState_def exState_def DefaultSettings_def)
  have l: "length (filter q_active (questLibrary exRangeState)) = 10"
    by (simp add: exRangeState_def exState_def exLibrary_def exQ_def)
  have a: "weeklyQuestMin (settings exRangeState) \<le> weeklyQuestMax (settings exRangeState)"
      "weeklyQuestMax (settings exRangeState) \<le> int (length (filter q_active (questLibrary exRangeState)))"
      "0 \<le> weeklyQuestMax (settings exRangeState)"
    by (simp_all add: s l)
  from weekly_range_count [OF v s(1) a, of exDay]
  show ?thesis
    by (simp add: Let_def v s l list_all_iff orElse_def)
qed

subsection \<open>Numbers as the source computes them\<close>

text \<open>
  The quotient and the product of the partial credit are rounded one after the other. One
  of three at 10 points is 3, as the exact value of the formula; seven of ten at 90 points
  is 62, and the exact value of the formula is 63. A multiplier of 1.4 is the binary64
  number nearest to 7/5, and 45 base points with it give 62.
\<close>

lemma counter_credit_is_rounded_twice:
  "\<lfloor>numMul (numDiv 1 3) 10\<rfloor> = 3 \<and> \<lfloor>(1 :: rat) / 3 * 10\<rfloor> = 3 \<and>
   \<lfloor>numMul (numDiv 7 10) 90\<rfloor> = 62 \<and> \<lfloor>(7 :: rat) / 10 * 90\<rfloor> = 63"
  by code_simp

lemma quest_points_are_rounded:
  "\<lfloor>numMul 45 (toDouble (7 / 5))\<rfloor> = 62 \<and> \<lfloor>numMul 100 (toDouble (23 / 10))\<rfloor> = 229 \<and>
   \<lfloor>numMul 40 (toDouble (3 / 2))\<rfloor> = 60 \<and> toDouble (3 / 2) = 3 / 2 \<and> toDouble 1 = 1 \<and>
   toDouble (toDouble (7 / 5)) = toDouble (7 / 5)"
  by code_simp

subsection \<open>The weekday the runtime reports for a day string\<close>

lemma div_day:
  fixes n r :: int
  assumes "0 \<le> r" and "r < 86400000"
  shows "(n * 86400000 + r) div 86400000 = n"
proof -
  have "r div 86400000 = 0"
    using assms by (rule div_pos_pos_trivial)
  moreover have "(n * 86400000 + r) div 86400000 = n + r div 86400000"
    by simp
  ultimately show ?thesis by simp
qed

text \<open>
  At UTC and east of it the instant \<^verbatim>\<open>new Date(d)\<close> lies in the local day \<open>d\<close>, and
  \<^verbatim>\<open>getDay()\<close> is the weekday of \<open>d\<close>. West of UTC the instant lies in the evening of the
  day before, and \<^verbatim>\<open>getDay()\<close> is the weekday of the day before \<open>d\<close>.
\<close>

lemma jsGetDay_at_or_east_of_utc:
  assumes "0 \<le> offset" and "offset < 1440"
  shows "jsGetDay offset d = weekdayOf d"
proof -
  have "(daysFromCivil d * 86400000 + offset * 60000) div 86400000 = daysFromCivil d"
    using assms by (intro div_day) auto
  then show ?thesis
    by (simp add: jsGetDay_def weekdayOf_def)
qed

lemma jsGetDay_west_of_utc:
  assumes "- 1440 \<le> offset" and "offset < 0"
  shows "jsGetDay offset d = weekdayOfDay (daysFromCivil d - 1)"
proof -
  have "daysFromCivil d * 86400000 + offset * 60000
          = (daysFromCivil d - 1) * 86400000 + (86400000 + offset * 60000)"
    by (simp add: algebra_simps)
  moreover have "((daysFromCivil d - 1) * 86400000 + (86400000 + offset * 60000)) div 86400000
          = daysFromCivil d - 1"
    using assms by (intro div_day) auto
  ultimately show ?thesis
    by (simp add: jsGetDay_def)
qed

lemma getDay_at_or_east_of_utc:
  "0 \<le> offset \<Longrightarrow> offset < 1440 \<Longrightarrow> getDay (jsRuntime offset env) d = weekdayOf d"
  by (simp add: jsRuntime_def jsGetDay_at_or_east_of_utc)

lemma getDay_west_of_utc:
  "- 1440 \<le> offset \<Longrightarrow> offset < 0 \<Longrightarrow>
   getDay (jsRuntime offset env) d = weekdayOfDay (daysFromCivil d - 1)"
  by (simp add: jsRuntime_def jsGetDay_west_of_utc)

text \<open>The example runtime is the runtime of a browser at UTC on the example days.\<close>

lemma exEnv_is_utc:
  "getDay exEnv exDay = jsGetDay 0 exDay \<and> dateStartMs exEnv exDay = jsDateStartMs 0 exDay \<and>
   dateEndMs exEnv exDay = jsDateEndMs 0 exDay \<and> weekdayOf exDay = Mon \<and>
   weekOf exEnv exDay ''Mon'' = jsWeekOf 0 exDay ''Mon'' \<and>
   weekOf exEnv exDay ''Sun'' = jsWeekOf 0 exDay ''Sun'' \<and>
   getDay exEnv exNextDay = jsGetDay 0 exNextDay \<and>
   dateStartMs exEnv exNextDay = jsDateStartMs 0 exNextDay \<and>
   dateEndMs exEnv exNextDay = jsDateEndMs 0 exNextDay \<and> weekdayOf exNextDay = Tue \<and>
   weekOf exEnv exNextDay ''Mon'' = jsWeekOf 0 exNextDay ''Mon'' \<and>
   weekOf exEnv exNextDay ''Sun'' = jsWeekOf 0 exNextDay ''Sun''"
  by code_simp

lemma dates_round_trip:
  "civilFromDays (daysFromCivil exDay) = exDay \<and> daysFromCivil exDay = 19737 \<and>
   civilFromDays (daysFromCivil (YMD 2024 2 29)) = YMD 2024 2 29 \<and>
   civilFromDays (daysFromCivil (YMD 2023 12 31) + 1) = YMD 2024 1 1 \<and>
   civilFromDays 0 = YMD 1970 1 1 \<and> weekdayOfDay 0 = Thu"
  by code_simp

text \<open>
  Where the runtime reports the day's own weekday (a browser at UTC or east of it), the
  three functions that read it do what is said of them, for habits as the habit form
  stores them (a target of at least 1) and at most one log per habit and day.
\<close>

lemma allScheduledHabitsComplete_with_true_weekday:
  assumes "getDay env d = weekdayOf d"
    and "distinct (map (\<lambda>l. (l_habitId l, l_date l)) (habitLogs st))"
    and "\<forall>h\<in>set (habits st). h_type h = Counter \<longrightarrow> 1 \<le> h_target h"
  shows "allScheduledHabitsComplete env st d \<longleftrightarrow>
     (\<forall>h\<in>set (habits st). weekdayOf d \<in> set (h_schedule h) \<longrightarrow>
        (\<exists>lg\<in>set (habitLogs st). l_habitId lg = h_id h \<and> l_date lg = d \<and>
           (if h_type h = Binary then 1 \<le> l_count lg else h_target h \<le> l_count lg)))"
proof -
  note one = find_pair_unique [OF assms(2)]
  have t: "\<And>h. h \<in> set (habits st) \<Longrightarrow> h_type h \<noteq> Binary \<Longrightarrow>
             orElse (h_target h) 1 = h_target h"
  proof -
    fix h
    assume "h \<in> set (habits st)" and "h_type h \<noteq> Binary"
    then have "1 \<le> h_target h"
      using assms(3) by (cases "h_type h") auto
    then show "orElse (h_target h) 1 = h_target h"
      by (simp add: orElse_def)
  qed
  have "allScheduledHabitsComplete env st d \<longleftrightarrow>
     (\<forall>h\<in>set (habits st). weekdayOf d \<in> set (h_schedule h) \<longrightarrow>
        (\<exists>lg\<in>set (habitLogs st). l_habitId lg = h_id h \<and> l_date lg = d \<and>
           (if h_type h = Binary then 1 \<le> l_count lg else orElse (h_target h) 1 \<le> l_count lg)))"
    by (simp only: allScheduledHabitsComplete_iff one assms(1))
  then show ?thesis
    using t by auto
qed

lemma habitLogPoints_with_true_weekday:
  assumes "getDay env d = weekdayOf d"
    and "find (\<lambda>h. h_id h = l_habitId lg) (habits st) = Some habit"
    and "h_type habit = Counter" and "weekdayOf d \<in> set (h_schedule habit)"
    and "1 \<le> h_target habit"
  shows "habitLogPoints env st d lg =
     \<lfloor>numMul (numDiv (of_int (clamp (l_count lg) 0 (h_target habit))) (of_int (h_target habit)))
        (of_int (h_points habit))\<rfloor>"
  using assms by (simp add: habitLogPoints_def orElse_def)

lemma streak_reset_with_true_weekday:
  assumes "lastAssignmentRun (meta st) = Some prev" and "prev \<noteq> today"
    and "getDay env prev = weekdayOf prev"
    and "h \<in> set (habits st)" and "weekdayOf prev \<in> set (h_schedule h)"
    and "find (\<lambda>l. l_habitId l = h_id h \<and> l_date l = prev) (habitLogs st) = Some lg"
    and "l_count lg = 0" and "1 \<le> h_target h"
  shows "streak (meta (ensureRollover env today st)) = 0"
proof -
  have "getDay env prev \<in> set (h_schedule h)"
    using assms(3,5) by simp
  then have "\<not> allScheduledHabitsComplete env st prev"
    using assms(4,6,7,8) by (intro count_zero_incomplete [of h st env prev lg]) simp_all
  with ensureRollover_streak [OF assms(1,2), of env] show ?thesis
    by simp
qed

text \<open>
  C7. \<open>allScheduledHabitsComplete date\<close> is to gather the habits scheduled for the weekday
  of \<open>date\<close> and to return false when one of them has no log for \<open>date\<close>. The source takes
  the weekday from \<^verbatim>\<open>new Date(dateStr).getDay()\<close> (app.js 252-253), which parses the day
  string as midnight UTC and reads the weekday in local time. In a browser five hours west
  of UTC, for Monday 15 January 2024, a counter habit scheduled from Monday to Friday and
  no log at all, the runtime reports Sunday, no habit is gathered and the function returns
  true; in a browser at UTC it returns false.
\<close>

theorem allScheduledHabitsComplete_west_of_utc:
  "weekdayOf exDay = Mon \<and> habits exState = [exHabit] \<and>
   weekdayOf exDay \<in> set (h_schedule exHabit) \<and>
   find (\<lambda>l. l_habitId l = h_id exHabit \<and> l_date l = exDay) (habitLogs exState) = None \<and>
   getDay exEnvWest exDay = Sun \<and>
   allScheduledHabitsComplete exEnvWest exState exDay \<and>
   \<not> allScheduledHabitsComplete (jsRuntime 0 exEnv) exState exDay"
  by code_simp

text \<open>
  C3. A log dated \<open>d\<close> of a counter habit whose schedule includes the weekday of \<open>d\<close> is
  to add \<open>floor (clamp count 0 target / target * points)\<close>; with target 3, 10 points and
  count 1 that is 3. The source skips the log when the weekday it takes from
  \<^verbatim>\<open>new Date(dateStr).getDay()\<close> (app.js 202-203, 208) is not in the schedule. In a
  browser five hours west of UTC, for Monday 15 January 2024 and a habit scheduled from
  Monday to Friday, that weekday is Sunday and the log of the example adds 0; in a
  browser at UTC it adds 3.
\<close>

theorem counter_credit_lost_west_of_utc:
  "find (\<lambda>h. h_id h = l_habitId exLog1) (habits (exState\<lparr>habitLogs := [exLog1]\<rparr>)) = Some exHabit \<and>
   h_type exHabit = Counter \<and> h_target exHabit = 3 \<and> h_points exHabit = 10 \<and>
   l_date exLog1 = exDay \<and> l_count exLog1 = 1 \<and>
   weekdayOf exDay \<in> set (h_schedule exHabit) \<and>
   getDay exEnvWest exDay \<notin> set (h_schedule exHabit) \<and>
   habitLogPoints exEnvWest (exState\<lparr>habitLogs := [exLog1]\<rparr>) exDay exLog1 = 0 \<and>
   totalPoints (computeDayTotals exEnvWest (exState\<lparr>habitLogs := [exLog1]\<rparr>) exDay) = 0 \<and>
   habitLogPoints (jsRuntime 0 exEnv) (exState\<lparr>habitLogs := [exLog1]\<rparr>) exDay exLog1 = 3 \<and>
   totalPoints (computeDayTotals (jsRuntime 0 exEnv) (exState\<lparr>habitLogs := [exLog1]\<rparr>) exDay) = 3"
  by code_simp

text \<open>
  C2. On a day-changed run the streak is to be set to 0 when a habit scheduled for the
  previous day has its log at count 0, even if the goal was met by other points. The
  streak update asks \<open>allScheduledHabitsComplete prev\<close> (app.js 347), which takes the
  weekday from \<^verbatim>\<open>new Date(dateStr).getDay()\<close>. In a browser five hours west of UTC, with
  the previous day Monday 15 January 2024, the goal of 50 met by an event of 60 points and
  the log of a habit scheduled from Monday to Friday at count 0, the check gathers the
  habits of Sunday, finds none and holds: the streak goes from 4 to 5. In a browser at
  UTC it is set to 0.
\<close>

theorem streak_not_reset_west_of_utc:
  "lastAssignmentRun (meta exRunState) = Some exDay \<and> exDay \<noteq> exNextDay \<and>
   exHabit \<in> set (habits exRunState) \<and> h_target exHabit = 3 \<and>
   weekdayOf exDay \<in> set (h_schedule exHabit) \<and>
   find (\<lambda>l. l_habitId l = h_id exHabit \<and> l_date l = exDay) (habitLogs exRunState) = Some exLog0 \<and>
   l_count exLog0 = 0 \<and>
   goalMet (computeDayTotals exEnvWest exRunState exDay) \<and>
   allScheduledHabitsComplete exEnvWest exRunState exDay \<and>
   streak (meta exRunState) = 4 \<and>
   streak (meta (ensureRollover exEnvWest exNextDay exRunState)) = 5 \<and>
   streak (meta (ensureRollover (jsRuntime 0 exEnv) exNextDay exRunState)) = 0"
proof -
  have a: "lastAssignmentRun (meta exRunState) = Some exDay"
    by code_simp
  have b: "exDay \<noteq> exNextDay"
    by code_simp
  have c: "exHabit \<in> set (habits exRunState) \<and> h_target exHabit = 3 \<and>
           weekdayOf exDay \<in> set (h_schedule exHabit) \<and>
           find (\<lambda>l. l_habitId l = h_id exHabit \<and> l_date l = exDay) (habitLogs exRunState)
             = Some exLog0 \<and>
           l_count exLog0 = 0 \<and> streak (meta exRunState) = 4"
    by code_simp
  have g: "goalMet (computeDayTotals exEnvWest exRunState exDay)"
    by code_simp
  have h: "allScheduledHabitsComplete exEnvWest exRunState exDay"
    by code_simp
  have h0: "\<not> allScheduledHabitsComplete (jsRuntime 0 exEnv) exRunState exDay"
    by code_simp
  have west: "streak (meta (ensureRollover exEnvWest exNextDay exRunState)) = 5"
    using ensureRollover_streak [OF a b, of exEnvWest] g h c by simp
  have utc: "streak (meta (ensureRollover (jsRuntime 0 exEnv) exNextDay exRunState)) = 0"
    using ensureRollover_streak [OF a b, of "jsRuntime 0 exEnv"] h0 by simp
  from a b c g h west utc show ?thesis
    by blast
qed

subsection \<open>A call that runs alone\<close>

lemma resume_awaitsLeft:
  "resume env p st = (Some p', st') \<Longrightarrow> awaitsLeft p' < awaitsLeft p"
  by (cases p)
     (auto simp: Let_def firstAfterDaily_def firstAfterWeekly_def firstAfterMeta_def
        changedAfterPrev_def changedAfterDaily_def changedAfterToday_def changedAfterWeekly_def
        changedSetRun_def awaitSummary_def
        split: Next.splits prod.splits if_splits)

lemma awaitsLeft_pos: "0 < awaitsLeft p"
  by (cases p) (auto split: Next.splits)

text \<open>The helpers, cut at their storage request.\<close>

lemma assignDailyQuests_steps:
  "assignDailyQuests env d st =
     (if length (fst (dailyCreated env d st)) \<noteq> 0
      then finishAwait (PutQuests (fst (dailyCreated env d st)))
             (st\<lparr>randomCalls := snd (dailyCreated env d st)\<rparr>)
      else st\<lparr>randomCalls := snd (dailyCreated env d st)\<rparr>)"
  by (simp add: assignDailyQuests_def dailyCreated_def finishAwait_def Let_def case_prod_beta)

lemma assignWeeklyQuests_steps:
  "assignWeeklyQuests env d st =
     (if length (fst (weeklyCreated env d st)) \<noteq> 0
      then finishAwait (PutQuests (fst (weeklyCreated env d st)))
             (st\<lparr>randomCalls := snd (weeklyCreated env d st)\<rparr>)
      else st\<lparr>randomCalls := snd (weeklyCreated env d st)\<rparr>)"
  by (simp add: assignWeeklyQuests_def weeklyCreated_def finishAwait_def Let_def case_prod_beta)

lemma upsertDaySummary_steps:
  "upsertDaySummary env d st
     = (computeDayTotals env st d, finishAwait (PutSummary d (computeDayTotals env st d)) st)"
  by (simp add: upsertDaySummary_def finishAwait_def Let_def split: option.splits)

lemma drain_one_raw:
  "drain env [p] st =
     (case resume env p st of (None, st') \<Rightarrow> st' | (Some p', st') \<Rightarrow> drain env [p'] st')"
  by (simp add: drain.simps split: prod.splits option.splits)

lemma drain_one:
  "drain env [Pending today aw nxt] st =
     (case resume env (Pending today aw nxt) st of
        (None, st') \<Rightarrow> st'
      | (Some p', st') \<Rightarrow> drain env [p'] st')"
  by (rule drain_one_raw)

lemma alone_Finish: "drain env [Pending today aw Finish] st = finishAwait aw st"
  by (simp add: drain_one)

lemma alone_awaitSummary_Finish:
  "drain env [fst (awaitSummary env today d Finish st)] (snd (awaitSummary env today d Finish st))
     = snd (upsertDaySummary env d st)"
  by (simp add: awaitSummary_def alone_Finish upsertDaySummary_steps)

lemma alone_changedSetRun:
  "drain env [fst (changedSetRun today st)] (snd (changedSetRun today st))
     = st\<lparr>meta := (meta st)\<lparr>lastAssignmentRun := Some today\<rparr>\<rparr>"
  by (simp add: changedSetRun_def alone_Finish finishAwait_def)

lemma alone_changedAfterWeekly:
  "drain env [fst (changedAfterWeekly today cw st)] (snd (changedAfterWeekly today cw st))
     = st\<lparr>meta := (meta st)\<lparr>lastWeekStart := Some cw, lastAssignmentRun := Some today\<rparr>\<rparr>"
  by (simp add: changedAfterWeekly_def alone_changedSetRun)

lemma alone_ChangedAfterWeekly:
  "drain env [Pending today aw (ChangedAfterWeekly cw)] st
     = (finishAwait aw st)\<lparr>meta := (meta (finishAwait aw st))
          \<lparr>lastWeekStart := Some cw, lastAssignmentRun := Some today\<rparr>\<rparr>"
  using alone_changedAfterWeekly [of env today cw "finishAwait aw st"]
  by (simp add: drain_one Let_def case_prod_beta)

lemma alone_changedAfterToday:
  "drain env [fst (changedAfterToday env today prev st)] (snd (changedAfterToday env today prev st))
     = (let lastWeek = (case lastWeekStart (meta st) of
                          Some w \<Rightarrow> w
                        | None \<Rightarrow> weekOf env prev (weekStart (settings st)));
            currentWeek = weekOf env today (weekStart (settings st));
            st5 = (if currentWeek \<noteq> lastWeek
                   then (let st' = assignWeeklyQuests env currentWeek st
                         in st'\<lparr>meta := (meta st')\<lparr>lastWeekStart := Some currentWeek\<rparr>\<rparr>)
                   else st)
        in st5\<lparr>meta := (meta st5)\<lparr>lastAssignmentRun := Some today\<rparr>\<rparr>)"
  by (simp add: changedAfterToday_def Let_def case_prod_beta alone_changedSetRun
      alone_changedAfterWeekly alone_ChangedAfterWeekly assignWeeklyQuests_steps)

lemma alone_ChangedAfterToday:
  "drain env [Pending today aw (ChangedAfterToday prev)] st
     = drain env [fst (changedAfterToday env today prev (finishAwait aw st))]
         (snd (changedAfterToday env today prev (finishAwait aw st)))"
  by (simp add: drain_one Let_def case_prod_beta)

lemma alone_changedAfterDaily:
  "drain env [fst (changedAfterDaily env today prev st)] (snd (changedAfterDaily env today prev st))
     = drain env [fst (changedAfterToday env today prev (snd (upsertDaySummary env today st)))]
         (snd (changedAfterToday env today prev (snd (upsertDaySummary env today st))))"
  by (simp add: changedAfterDaily_def awaitSummary_def alone_ChangedAfterToday
      upsertDaySummary_steps)

lemma alone_ChangedAfterDaily:
  "drain env [Pending today aw (ChangedAfterDaily prev)] st
     = drain env [fst (changedAfterDaily env today prev (finishAwait aw st))]
         (snd (changedAfterDaily env today prev (finishAwait aw st)))"
  by (simp add: drain_one Let_def case_prod_beta)

lemma alone_changedAfterPrev:
  "drain env [fst (changedAfterPrev env today prev daySum st)]
       (snd (changedAfterPrev env today prev daySum st))
     = (let st3 = assignDailyQuests env today
                    (st\<lparr>meta := updateStreak env st prev daySum (meta st)\<rparr>)
        in drain env [fst (changedAfterDaily env today prev st3)]
             (snd (changedAfterDaily env today prev st3)))"
  by (simp add: changedAfterPrev_def Let_def case_prod_beta alone_ChangedAfterDaily
      assignDailyQuests_steps)

lemma alone_ChangedAfterPrev:
  "drain env [Pending today aw (ChangedAfterPrev prev daySum)] st
     = drain env [fst (changedAfterPrev env today prev daySum (finishAwait aw st))]
         (snd (changedAfterPrev env today prev daySum (finishAwait aw st)))"
  by (simp add: drain_one Let_def case_prod_beta)

lemma alone_firstAfterWeekly:
  "drain env [fst (firstAfterWeekly today ws st)] (snd (firstAfterWeekly today ws st))
     = snd (upsertDaySummary env today
         (st\<lparr>meta := (meta st)\<lparr>lastAssignmentRun := Some today, lastWeekStart := Some ws\<rparr>\<rparr>))"
  by (simp add: firstAfterWeekly_def drain_one firstAfterMeta_def awaitSummary_def
      finishAwait_def [of PutMeta] upsertDaySummary_steps Let_def)

lemma alone_FirstAfterWeekly:
  "drain env [Pending today aw (FirstAfterWeekly ws)] st
     = drain env [fst (firstAfterWeekly today ws (finishAwait aw st))]
         (snd (firstAfterWeekly today ws (finishAwait aw st)))"
  by (simp add: drain_one Let_def case_prod_beta)

lemma alone_firstAfterDaily:
  "drain env [fst (firstAfterDaily env today st)] (snd (firstAfterDaily env today st))
     = (let ws = weekOf env today (weekStart (settings st));
            st2 = assignWeeklyQuests env ws st
        in snd (upsertDaySummary env today
             (st2\<lparr>meta := (meta st2)\<lparr>lastAssignmentRun := Some today, lastWeekStart := Some ws\<rparr>\<rparr>)))"
  by (simp add: firstAfterDaily_def Let_def case_prod_beta alone_FirstAfterWeekly
      alone_firstAfterWeekly assignWeeklyQuests_steps)

lemma alone_FirstAfterDaily:
  "drain env [Pending today aw FirstAfterDaily] st
     = drain env [fst (firstAfterDaily env today (finishAwait aw st))]
         (snd (firstAfterDaily env today (finishAwait aw st)))"
  by (simp add: drain_one Let_def case_prod_beta)

lemma finishAwait_fields:
  "settings (finishAwait aw st) = settings st"
  "meta (finishAwait aw st) = meta st"
  "randomCalls (finishAwait aw st) = randomCalls st"
  by (simp_all add: finishAwait_def split: Awaited.splits option.splits)

text \<open>
  The two embeddings agree: a call that is resumed at each of its storage requests with
  no other call in between leaves the state that \<open>ensureRollover\<close> computes.
\<close>

lemma runAlone_is_ensureRollover: "runAlone env today st = ensureRollover env today st"
proof (cases "lastAssignmentRun (meta st)")
  case None
  then show ?thesis
    by (simp add: runAlone_def ensureRolloverStart_def ensureRollover_def Let_def case_prod_beta
        alone_FirstAfterDaily alone_firstAfterDaily assignDailyQuests_steps finishAwait_fields)
next
  case (Some prev)
  show ?thesis
  proof (cases "prev = today")
    case True
    then show ?thesis
      using Some
      by (simp add: runAlone_def ensureRolloverStart_def ensureRollover_def case_prod_beta
          alone_awaitSummary_Finish)
  next
    case False
    then show ?thesis
      using Some
      by (simp add: runAlone_def ensureRolloverStart_def ensureRollover_def Let_def case_prod_beta
          awaitSummary_def alone_ChangedAfterPrev alone_changedAfterPrev alone_changedAfterDaily
          alone_changedAfterToday upsertDaySummary_steps finishAwait_fields
          assignDaily_fields cong: option.case_cong)
  qed
qed

lemma updateStreak_streak:
  "streak (updateStreak env st prev daySum m) =
     (if goalMet daySum \<and> allScheduledHabitsComplete env st prev then streak m + 1 else 0)"
  by (simp add: updateStreak_def Let_def orElse_def)

lemma updateStreak_lastWeekStart:
  "lastWeekStart (updateStreak env st prev daySum m) = lastWeekStart m"
  by (simp add: updateStreak_def Let_def)

lemma dailyCreated_length:
  "0 \<le> dailyQuestCount (settings st) \<Longrightarrow>
   int (length (fst (dailyCreated env d st)))
     = min (dailyQuestCount (settings st)) (int (length (filter q_active (questLibrary st))))"
proof -
  assume n: "0 \<le> dailyQuestCount (settings st)"
  let ?pool = "filter q_active (questLibrary st)"
  let ?n = "min (orElse (dailyQuestCount (settings st)) 0) (int (length ?pool))"
  have o: "orElse (dailyQuestCount (settings st)) 0 = dailyQuestCount (settings st)"
    by (simp add: orElse_def)
  have "0 \<le> ?n"
    using n by (simp add: o)
  then have "int (length (fst (randomSample env ?pool ?n (randomCalls st)))) = min ?n (int (length ?pool))"
    by (rule randomSample_length)
  then show ?thesis
    by (simp add: dailyCreated_def Let_def case_prod_beta createAssigned_length o)
qed

text \<open>
  A day-changed run within the same week adds the daily quests of the new day and nothing
  else.
\<close>

lemma ensureRollover_assigned_same_week:
  assumes "lastAssignmentRun (meta st) = Some prev" and "prev \<noteq> today"
    and "lastWeekStart (meta st) = Some (weekOf env today (weekStart (settings st)))"
    and "0 \<le> dailyQuestCount (settings st)"
  shows "int (length (assignedQuests (ensureRollover env today st)))
     = int (length (assignedQuests st))
       + min (dailyQuestCount (settings st)) (int (length (filter q_active (questLibrary st))))"
proof -
  let ?st1 = "snd (upsertDaySummary env prev st)"
  let ?st2 = "?st1\<lparr>meta := updateStreak env ?st1 prev (computeDayTotals env st prev) (meta ?st1)\<rparr>"
  have q: "assignedQuests (ensureRollover env today st)
             = assignedQuests (assignDailyQuests env today ?st2)"
    using assms(1,2,3)
    by (simp add: ensureRollover_def Let_def case_prod_beta upsert_fst upsert_snd_fields
        assignDaily_fields updateStreak_lastWeekStart)
  have "int (length (assignedQuests (assignDailyQuests env today ?st2)))
          = int (length (assignedQuests ?st2)) + int (length (fst (dailyCreated env today ?st2)))"
    by (simp add: assignDailyQuests_steps finishAwait_def)
  also have "int (length (fst (dailyCreated env today ?st2)))
          = min (dailyQuestCount (settings st)) (int (length (filter q_active (questLibrary st))))"
    using assms(4) by (subst dailyCreated_length) (simp_all add: upsert_snd_fields)
  finally show ?thesis
    by (simp add: q upsert_snd_fields)
qed

subsection \<open>Two calls that overlap\<close>

lemma start_keeps_state:
  "lastAssignmentRun (meta st) = Some prev \<Longrightarrow> snd (ensureRolloverStart env today st) = st"
  by (simp add: ensureRolloverStart_def awaitSummary_def)

lemma start_day_changed:
  "lastAssignmentRun (meta st) = Some prev \<Longrightarrow> prev \<noteq> today \<Longrightarrow>
   fst (ensureRolloverStart env today st)
     = Pending today (PutSummary prev (computeDayTotals env st prev))
         (ChangedAfterPrev prev (computeDayTotals env st prev))"
  by (simp add: ensureRolloverStart_def awaitSummary_def)

lemma finishAwait_habits:
  "habits (finishAwait aw st) = habits st" "habitLogs (finishAwait aw st) = habitLogs st"
  by (simp_all add: finishAwait_def split: Awaited.splits option.splits)

lemma resume_habits:
  "habits (snd (resume env p st)) = habits st \<and> habitLogs (snd (resume env p st)) = habitLogs st"
  by (cases p)
     (simp add: Let_def case_prod_beta firstAfterDaily_def firstAfterWeekly_def firstAfterMeta_def
        changedAfterPrev_def changedAfterDaily_def changedAfterToday_def changedAfterWeekly_def
        changedSetRun_def awaitSummary_def finishAwait_habits split: Next.splits)

lemma resume_ChangedAfterPrev:
  "\<exists>p'. fst (resume env (Pending today aw (ChangedAfterPrev prev daySum)) st) = Some p' \<and>
        pastStreak p' \<and>
        streak (meta (snd (resume env (Pending today aw (ChangedAfterPrev prev daySum)) st)))
          = streak (updateStreak env st prev daySum (meta st)) \<and>
        bestStreak (meta (snd (resume env (Pending today aw (ChangedAfterPrev prev daySum)) st)))
          = bestStreak (updateStreak env st prev daySum (meta st))"
proof -
  have u: "updateStreak env (finishAwait aw st) prev daySum (meta st)
             = updateStreak env st prev daySum (meta st)"
    by (rule updateStreak_cong) (simp_all add: finishAwait_habits)
  show ?thesis
    by (simp add: Let_def case_prod_beta changedAfterPrev_def changedAfterDaily_def
        awaitSummary_def finishAwait_fields u)
qed

lemma resume_pastStreak:
  assumes "pastStreak p"
  shows "streak (meta (snd (resume env p st))) = streak (meta st) \<and>
         bestStreak (meta (snd (resume env p st))) = bestStreak (meta st) \<and>
         (\<forall>p'. fst (resume env p st) = Some p' \<longrightarrow> pastStreak p')"
  using assms
  by (cases p)
     (simp add: Let_def case_prod_beta firstAfterDaily_def firstAfterWeekly_def firstAfterMeta_def
        changedAfterDaily_def changedAfterToday_def changedAfterWeekly_def
        changedSetRun_def awaitSummary_def finishAwait_fields split: Next.splits)

lemma drain_pastStreak:
  "list_all pastStreak ps \<Longrightarrow>
   streak (meta (drain env ps st)) = streak (meta st) \<and>
   bestStreak (meta (drain env ps st)) = bestStreak (meta st)"
proof (induction "sum_list (map awaitsLeft ps)" arbitrary: ps st rule: less_induct)
  case less
  show ?case
  proof (cases ps)
    case Nil
    then show ?thesis by (simp add: drain.simps)
  next
    case (Cons p qs)
    from less.prems Cons have p: "pastStreak p" and qs: "list_all pastStreak qs"
      by simp_all
    obtain x st' where r: "resume env p st = (x, st')"
      by (cases "resume env p st")
    from resume_pastStreak [OF p, of env st] r
    have keep: "streak (meta st') = streak (meta st)" "bestStreak (meta st') = bestStreak (meta st)"
      and nxt: "\<forall>p'. x = Some p' \<longrightarrow> pastStreak p'"
      by simp_all
    show ?thesis
    proof (cases x)
      case None
      have "sum_list (map awaitsLeft qs) < sum_list (map awaitsLeft ps)"
        using Cons awaitsLeft_pos [of p] by simp
      from less.hyps [OF this qs, of st'] r None Cons keep show ?thesis
        by (simp add: drain.simps del: resume.simps)
    next
      case (Some p')
      with nxt have "pastStreak p'" by simp
      with qs have all: "list_all pastStreak (qs @ [p'])" by simp
      have "awaitsLeft p' < awaitsLeft p"
        using r Some by (intro resume_awaitsLeft [of env p st p' st']) simp
      then have "sum_list (map awaitsLeft (qs @ [p'])) < sum_list (map awaitsLeft ps)"
        using Cons by simp
      from less.hyps [OF this all, of st'] r Some Cons keep show ?thesis
        by (simp add: drain.simps del: resume.simps)
    qed
  qed
qed

text \<open>
  Both calls read \<open>lastAssignmentRun\<close> before either has written it, both take the
  day-changed branch, and the streak update of the previous day is applied twice.
\<close>

lemma overlapping_streak:
  assumes "lastAssignmentRun (meta st) = Some prev" and "prev \<noteq> today"
  shows "streak (meta (runOverlapping env today st))
     = streak (updateStreak env st prev (computeDayTotals env st prev)
                (updateStreak env st prev (computeDayTotals env st prev) (meta st)))"
proof -
  let ?sum = "computeDayTotals env st prev"
  let ?p = "Pending today (PutSummary prev ?sum) (ChangedAfterPrev prev ?sum)"
  have start: "ensureRolloverStart env today st = (?p, st)"
    using start_keeps_state [OF assms(1), of env today] start_day_changed [OF assms, of env]
    by (simp add: prod_eq_iff)
  have run: "runOverlapping env today st = drain env [?p, ?p] st"
    by (simp add: runOverlapping_def start)
  obtain x1 s1 where r1: "resume env ?p st = (x1, s1)"
    by (cases "resume env ?p st")
  from resume_ChangedAfterPrev [of env today "PutSummary prev ?sum" prev ?sum st] r1
  obtain pA where a: "x1 = Some pA" "pastStreak pA"
      "streak (meta s1) = streak (updateStreak env st prev ?sum (meta st))"
      "bestStreak (meta s1) = bestStreak (updateStreak env st prev ?sum (meta st))"
    by (auto simp del: resume.simps)
  have h1: "habits s1 = habits st" "habitLogs s1 = habitLogs st"
    using resume_habits [of env ?p st] r1 by (simp_all del: resume.simps)
  obtain x2 s2 where r2: "resume env ?p s1 = (x2, s2)"
    by (cases "resume env ?p s1")
  from resume_ChangedAfterPrev [of env today "PutSummary prev ?sum" prev ?sum s1] r2
  obtain pB where b: "x2 = Some pB" "pastStreak pB"
      "streak (meta s2) = streak (updateStreak env s1 prev ?sum (meta s1))"
    by (auto simp del: resume.simps)
  have "drain env [?p, ?p] st = drain env [pA, pB] s2"
    using r1 r2 a(1) b(1) by (simp add: drain.simps del: resume.simps)
  moreover have "streak (meta (drain env [pA, pB] s2)) = streak (meta s2)"
    using drain_pastStreak [of "[pA, pB]" env s2] a(2) b(2) by simp
  moreover have "updateStreak env s1 prev ?sum (meta s1) = updateStreak env st prev ?sum (meta s1)"
    using h1 by (intro updateStreak_cong) simp_all
  moreover have "streak (updateStreak env st prev ?sum (meta s1))
      = streak (updateStreak env st prev ?sum (updateStreak env st prev ?sum (meta st)))"
    using a(3) by (simp add: updateStreak_def Let_def orElse_def)
  ultimately show ?thesis
    using run b(3) by simp
qed

lemma resume_assigned:
  "length (assignedQuests (snd (resume env p st))) = length (assignedQuests st) + pendingQuests p"
  by (cases p)
     (simp add: Let_def case_prod_beta firstAfterDaily_def firstAfterWeekly_def firstAfterMeta_def
        changedAfterPrev_def changedAfterDaily_def changedAfterToday_def changedAfterWeekly_def
        changedSetRun_def awaitSummary_def finishAwait_def
        split: Next.splits Awaited.splits option.splits)

lemma drain_assigned:
  "length (assignedQuests st) + sum_list (map pendingQuests ps)
     \<le> length (assignedQuests (drain env ps st))"
proof (induction "sum_list (map awaitsLeft ps)" arbitrary: ps st rule: less_induct)
  case less
  show ?case
  proof (cases ps)
    case Nil
    then show ?thesis by (simp add: drain.simps)
  next
    case (Cons p qs)
    obtain x st' where r: "resume env p st = (x, st')"
      by (cases "resume env p st")
    have len: "length (assignedQuests st') = length (assignedQuests st) + pendingQuests p"
      using resume_assigned [of env p st] r by (simp del: resume.simps)
    show ?thesis
    proof (cases x)
      case None
      have "sum_list (map awaitsLeft qs) < sum_list (map awaitsLeft ps)"
        using Cons awaitsLeft_pos [of p] by simp
      from less.hyps [OF this, of st'] r None Cons len show ?thesis
        by (simp add: drain.simps del: resume.simps)
    next
      case (Some p')
      have "awaitsLeft p' < awaitsLeft p"
        using r Some by (intro resume_awaitsLeft [of env p st p' st']) simp
      then have "sum_list (map awaitsLeft (qs @ [p'])) < sum_list (map awaitsLeft ps)"
        using Cons by simp
      from less.hyps [OF this, of st'] r Some Cons len show ?thesis
        by (simp add: drain.simps del: resume.simps)
    qed
  qed
qed

lemma resume_ChangedAfterPrev_quests:
  "\<exists>p'. fst (resume env (Pending today aw (ChangedAfterPrev prev daySum)) st) = Some p' \<and>
        pendingQuests p'
          = length (fst (dailyCreated env today
              ((finishAwait aw st)\<lparr>meta := updateStreak env (finishAwait aw st) prev daySum
                                             (meta (finishAwait aw st))\<rparr>)))"
  by (simp add: Let_def case_prod_beta changedAfterPrev_def changedAfterDaily_def awaitSummary_def)

lemma resume_fields:
  "settings (snd (resume env p st)) = settings st \<and>
   questLibrary (snd (resume env p st)) = questLibrary st"
  by (cases p)
     (simp add: Let_def case_prod_beta firstAfterDaily_def firstAfterWeekly_def firstAfterMeta_def
        changedAfterPrev_def changedAfterDaily_def changedAfterToday_def changedAfterWeekly_def
        changedSetRun_def awaitSummary_def finishAwait_def
        split: Next.splits Awaited.splits option.splits)

text \<open>Each of the two calls assigns the daily quests of the new day.\<close>

lemma overlapping_assigned:
  assumes "lastAssignmentRun (meta st) = Some prev" and "prev \<noteq> today"
    and "0 \<le> dailyQuestCount (settings st)"
  shows "int (length (assignedQuests st))
           + 2 * min (dailyQuestCount (settings st)) (int (length (filter q_active (questLibrary st))))
         \<le> int (length (assignedQuests (runOverlapping env today st)))"
proof -
  let ?sum = "computeDayTotals env st prev"
  let ?p = "Pending today (PutSummary prev ?sum) (ChangedAfterPrev prev ?sum)"
  let ?m = "min (dailyQuestCount (settings st)) (int (length (filter q_active (questLibrary st))))"
  have start: "ensureRolloverStart env today st = (?p, st)"
    using start_keeps_state [OF assms(1), of env today] start_day_changed [OF assms(1,2), of env]
    by (simp add: prod_eq_iff)
  have run: "runOverlapping env today st = drain env [?p, ?p] st"
    by (simp add: runOverlapping_def start)
  obtain x1 s1 where r1: "resume env ?p st = (x1, s1)"
    by (cases "resume env ?p st")
  have f1: "settings s1 = settings st" "questLibrary s1 = questLibrary st"
    using resume_fields [of env ?p st] r1 by (simp_all del: resume.simps)
  from resume_ChangedAfterPrev_quests [of env today "PutSummary prev ?sum" prev ?sum st] r1
  obtain pA where a: "x1 = Some pA"
      "pendingQuests pA = length (fst (dailyCreated env today
              ((finishAwait (PutSummary prev ?sum) st)
                 \<lparr>meta := updateStreak env (finishAwait (PutSummary prev ?sum) st) prev ?sum
                            (meta (finishAwait (PutSummary prev ?sum) st))\<rparr>)))"
    by (auto simp del: resume.simps)
  have qa: "int (pendingQuests pA) = ?m"
    unfolding a(2) using assms(3)
    by (subst dailyCreated_length) (simp_all add: finishAwait_def split: option.splits)
  obtain x2 s2 where r2: "resume env ?p s1 = (x2, s2)"
    by (cases "resume env ?p s1")
  from resume_ChangedAfterPrev_quests [of env today "PutSummary prev ?sum" prev ?sum s1] r2
  obtain pB where b: "x2 = Some pB"
      "pendingQuests pB = length (fst (dailyCreated env today
              ((finishAwait (PutSummary prev ?sum) s1)
                 \<lparr>meta := updateStreak env (finishAwait (PutSummary prev ?sum) s1) prev ?sum
                            (meta (finishAwait (PutSummary prev ?sum) s1))\<rparr>)))"
    by (auto simp del: resume.simps)
  have qb: "int (pendingQuests pB) = ?m"
    unfolding b(2) using assms(3) f1
    by (subst dailyCreated_length) (simp_all add: finishAwait_def split: option.splits)
  have l1: "length (assignedQuests s1) = length (assignedQuests st)"
    using resume_assigned [of env ?p st] r1 by (simp del: resume.simps)
  have l2: "length (assignedQuests s2) = length (assignedQuests s1)"
    using resume_assigned [of env ?p s1] r2 by (simp del: resume.simps)
  have "drain env [?p, ?p] st = drain env [pA, pB] s2"
    using r1 r2 a(1) b(1) by (simp add: drain.simps del: resume.simps)
  moreover have "length (assignedQuests s2) + sum_list (map pendingQuests [pA, pB])
      \<le> length (assignedQuests (drain env [pA, pB] s2))"
    by (rule drain_assigned)
  ultimately show ?thesis
    using run l1 l2 qa qb by simp
qed

text \<open>
  C1. A second call of \<open>ensureRollover\<close> on the same day is to find
  \<open>lastAssignmentRun = today\<close>, to assign no quest and to leave the streak alone, also when
  it is invoked in rapid succession. One call after the other does so
  (\<open>ensureRollover_twice_in_sequence\<close>). But the source reads \<open>lastAssignmentRun\<close> before
  its first \<^verbatim>\<open>await\<close> (app.js 328, 342) and writes it after the requests for the
  summaries and the assignments have completed (app.js 369), and the timer and the visibility handler (app.js 1539-1558) both start a call without
  waiting for one that is suspended. On Tuesday 16 January 2024, from a state last rolled
  over on Monday with a streak of 4, the goal met, the habit complete, three daily quests
  configured and ten active library quests: a call that starts while the first is
  suspended at its first storage request finds the state unchanged and takes the
  day-changed branch too. The streak ends at 6, where one call or two calls in sequence
  leave 5, and at least six quests are added, where one call adds three.
\<close>

theorem overlapping_calls_both_roll_over:
  "lastAssignmentRun (meta exOverlapState) = Some exDay \<and> exDay \<noteq> exNextDay \<and>
   ensureRolloverStart exEnv exNextDay (snd (ensureRolloverStart exEnv exNextDay exOverlapState))
     = (Pending exNextDay (PutSummary exDay (computeDayTotals exEnv exOverlapState exDay))
          (ChangedAfterPrev exDay (computeDayTotals exEnv exOverlapState exDay)),
        exOverlapState) \<and>
   streak (meta exOverlapState) = 4 \<and>
   streak (meta (runAlone exEnv exNextDay exOverlapState)) = 5 \<and>
   streak (meta (runAlone exEnv exNextDay (runAlone exEnv exNextDay exOverlapState))) = 5 \<and>
   streak (meta (runOverlapping exEnv exNextDay exOverlapState)) = 6 \<and>
   length (assignedQuests (runAlone exEnv exNextDay exOverlapState))
     = length (assignedQuests exOverlapState) + 3 \<and>
   length (assignedQuests (runAlone exEnv exNextDay (runAlone exEnv exNextDay exOverlapState)))
     = length (assignedQuests exOverlapState) + 3 \<and>
   length (assignedQuests exOverlapState) + 6
     \<le> length (assignedQuests (runOverlapping exEnv exNextDay exOverlapState))"
proof -
  have a: "lastAssignmentRun (meta exOverlapState) = Some exDay"
    by code_simp
  have b: "exDay \<noteq> exNextDay"
    by code_simp
  have s: "streak (meta exOverlapState) = 4"
    by code_simp
  have g: "goalMet (computeDayTotals exEnv exOverlapState exDay)"
    by code_simp
  have h: "allScheduledHabitsComplete exEnv exOverlapState exDay"
    by code_simp
  have n: "dailyQuestCount (settings exOverlapState) = 3"
    by code_simp
  have l: "length (filter q_active (questLibrary exOverlapState)) = 10"
    by code_simp
  have w: "lastWeekStart (meta exOverlapState)
             = Some (weekOf exEnv exNextDay (weekStart (settings exOverlapState)))"
    by code_simp
  have start: "ensureRolloverStart exEnv exNextDay exOverlapState
     = (Pending exNextDay (PutSummary exDay (computeDayTotals exEnv exOverlapState exDay))
          (ChangedAfterPrev exDay (computeDayTotals exEnv exOverlapState exDay)),
        exOverlapState)"
    using start_keeps_state [OF a, of exEnv exNextDay] start_day_changed [OF a b, of exEnv]
    by (simp add: prod_eq_iff)
  have one: "streak (meta (runAlone exEnv exNextDay exOverlapState)) = 5"
    using ensureRollover_streak [OF a b, of exEnv] g h s
    by (simp add: runAlone_is_ensureRollover)
  have same: "meta (ensureRollover exEnv exNextDay (ensureRollover exEnv exNextDay exOverlapState))
            = meta (ensureRollover exEnv exNextDay exOverlapState) \<and>
          assignedQuests (ensureRollover exEnv exNextDay (ensureRollover exEnv exNextDay exOverlapState))
            = assignedQuests (ensureRollover exEnv exNextDay exOverlapState)"
    using ensureRollover_twice_in_sequence [of exEnv exNextDay exOverlapState] by blast
  have two: "streak (meta (runAlone exEnv exNextDay (runAlone exEnv exNextDay exOverlapState))) = 5"
    using one same by (simp add: runAlone_is_ensureRollover)
  have both: "streak (meta (runOverlapping exEnv exNextDay exOverlapState)) = 6"
    using overlapping_streak [OF a b, of exEnv] g h s
    by (simp add: updateStreak_streak)
  have q1: "length (assignedQuests (runAlone exEnv exNextDay exOverlapState))
              = length (assignedQuests exOverlapState) + 3"
    using ensureRollover_assigned_same_week [OF a b w] n l
    by (simp add: runAlone_is_ensureRollover)
  have q2: "length (assignedQuests (runAlone exEnv exNextDay (runAlone exEnv exNextDay exOverlapState)))
              = length (assignedQuests exOverlapState) + 3"
    using q1 same by (simp add: runAlone_is_ensureRollover)
  have quests: "length (assignedQuests exOverlapState) + 6
     \<le> length (assignedQuests (runOverlapping exEnv exNextDay exOverlapState))"
    using overlapping_assigned [OF a b, of exEnv] n l by simp
  from a b start s one two both q1 q2 quests show ?thesis
    by simp
qed

end
